theory Spec2Isabelle
  imports Complex_Main
begin

section \<open>Errors\<close>

text \<open>
  The Python exceptions that \<^verbatim>\<open>extractors/base.py\<close> can raise, as values.
  \<open>ModelError\<close> stands for whatever the external transformer raises during a
  forward evaluation.
\<close>

datatype error =
    IndexError
  | ValueError
  | RuntimeError
  | ZeroDivisionError
  | KeyError
  | AssertionError
  | NotImplementedError
  | ModelError

definition ebind :: "error + 'a \<Rightarrow> ('a \<Rightarrow> error + 'b) \<Rightarrow> error + 'b" where
  "ebind m f = (case m of Inl err \<Rightarrow> Inl err | Inr v \<Rightarrow> f v)"

section \<open>Tensors\<close>

text \<open>
  A tensor is its shape and its elements in row-major (contiguous) order.
  Index arithmetic is that of a contiguous torch tensor.
\<close>

record 'a tensor =
  shape :: "nat list"
  elems :: "'a list"

definition wf_tensor :: "'a tensor \<Rightarrow> bool" where
  "wf_tensor t = (length (elems t) = prod_list (shape t))"

fun ravel :: "nat list \<Rightarrow> nat list \<Rightarrow> nat" where
  "ravel (n # ns) (i # js) = i * prod_list ns + ravel ns js"
| "ravel _ _ = 0"

fun tabulate :: "nat list \<Rightarrow> (nat list \<Rightarrow> 'a) \<Rightarrow> 'a list" where
  "tabulate [] f = [f []]"
| "tabulate (n # ns) f = concat (map (\<lambda>i. tabulate ns (\<lambda>idx. f (i # idx))) [0..<n])"

definition valid_index :: "nat list \<Rightarrow> nat list \<Rightarrow> bool" where
  "valid_index shp idx = list_all2 (\<lambda>i n. i < n) idx shp"

definition entry :: "'a tensor \<Rightarrow> nat list \<Rightarrow> 'a" where
  "entry t idx = elems t ! ravel (shape t) idx"

text \<open>
  Indexing a Python list, \<^verbatim>\<open>xs[i]\<close>: an index from \<open>-len\<close> up to \<open>-1\<close> is read from
  the end, an index outside \<open>-len .. len - 1\<close> raises IndexError.
\<close>

definition py_index :: "'a list \<Rightarrow> int \<Rightarrow> error + 'a" where
  "py_index xs i =
     (if 0 \<le> i \<and> i < int (length xs) then Inr (xs ! nat i)
      else if - int (length xs) \<le> i \<and> i < 0 then Inr (xs ! nat (int (length xs) + i))
      else Inl IndexError)"

text \<open>
  \<^verbatim>\<open>t.reshape(d0, d1, ...)\<close> on a contiguous tensor: the elements stay, the shape
  changes. One dimension may be \<open>-1\<close> and is then inferred; any other negative
  dimension, or a size that does not fit, raises RuntimeError.
\<close>

definition reshape :: "'a tensor \<Rightarrow> int list \<Rightarrow> error + 'a tensor" where
  "reshape t dims =
     (let n = int (length (elems t));
          known = prod_list (filter (\<lambda>d. d \<noteq> -1) dims)
      in if \<exists>d \<in> set dims. d < -1 then Inl RuntimeError
         else if length (filter (\<lambda>d. d = -1) dims) > 1 then Inl RuntimeError
         else if length (filter (\<lambda>d. d = -1) dims) = 1 then
           (if known = 0 \<or> n mod known \<noteq> 0 then Inl RuntimeError
            else Inr \<lparr>shape = map (\<lambda>d. nat (if d = -1 then n div known else d)) dims,
                      elems = elems t\<rparr>)
         else if known = n then Inr \<lparr>shape = map nat dims, elems = elems t\<rparr>
         else Inl RuntimeError)"

text \<open>
  \<^verbatim>\<open>t.permute(dims)\<close>: axis \<open>k\<close> of the result is axis \<open>dims ! k\<close> of \<open>t\<close>.
  The result is given in its own row-major order (what a later \<^verbatim>\<open>reshape\<close> or
  indexing observes).
\<close>

definition axis_pos :: "nat list \<Rightarrow> nat \<Rightarrow> nat" where
  "axis_pos dims a = length (takeWhile (\<lambda>d. d \<noteq> a) dims)"

definition permute :: "'a tensor \<Rightarrow> nat list \<Rightarrow> error + 'a tensor" where
  "permute t dims =
     (let r = length (shape t)
      in if length dims = r \<and> distinct dims \<and> (\<forall>d \<in> set dims. d < r) then
           Inr \<lparr>shape = map (\<lambda>d. shape t ! d) dims,
                elems = tabulate (map (\<lambda>d. shape t ! d) dims)
                          (\<lambda>idx. elems t ! ravel (shape t) (map (\<lambda>a. idx ! axis_pos dims a) [0..<r]))\<rparr>
         else Inl RuntimeError)"

text \<open>\<^verbatim>\<open>t[i]\<close> for a natural index: the \<open>i\<close>-th slice along axis 0.\<close>

definition select0 :: "'a tensor \<Rightarrow> nat \<Rightarrow> error + 'a tensor" where
  "select0 t i =
     (case shape t of
        [] \<Rightarrow> Inl IndexError
      | n # ns \<Rightarrow>
          if i < n then
            Inr \<lparr>shape = ns, elems = take (prod_list ns) (drop (i * prod_list ns) (elems t))\<rparr>
          else Inl IndexError)"

text \<open>\<^verbatim>\<open>t[None, None, ...]\<close>: two new leading axes of size one.\<close>

definition unsqueeze2 :: "'a tensor \<Rightarrow> 'a tensor" where
  "unsqueeze2 t = \<lparr>shape = 1 # 1 # shape t, elems = elems t\<rparr>"

text \<open>\<^verbatim>\<open>t[:, 0, :]\<close>: index 0 along axis 1; needs at least three axes.\<close>

definition slice_col0 :: "'a tensor \<Rightarrow> error + 'a tensor" where
  "slice_col0 t =
     (case shape t of
        b # n # d # rest \<Rightarrow>
          if n = 0 then Inl IndexError
          else Inr \<lparr>shape = b # d # rest,
                    elems = concat (map (\<lambda>i. take (prod_list (d # rest))
                                               (drop (i * (n * prod_list (d # rest))) (elems t)))
                                        [0..<b])\<rparr>
      | _ \<Rightarrow> Inl IndexError)"

section \<open>The model and the extractor\<close>

text \<open>
  The external transformer, consumed only through the number of its blocks and
  its forward evaluation: the outputs of the instrumentable points of each block
  that ran, and the exception that stopped the evaluation, if any.
\<close>

record stage_out =
  block_output :: "real tensor"
  attn_drop_output :: "real tensor"
  qkv_output :: "real tensor"
  attn_output :: "real tensor \<times> real tensor"

record vit_model =
  blocks :: nat
  forward :: "real tensor \<Rightarrow> stage_out list \<times> error option"

datatype capture_key = BLOCK_KEY | ATTN_KEY | PATCH_IMD_KEY | QKV_KEY

definition KEY_LIST :: "capture_key list" where
  "KEY_LIST = [BLOCK_KEY, ATTN_KEY, PATCH_IMD_KEY, QKV_KEY]"

text \<open>
  The extractor object. \<open>model_hooks\<close> is the set of callbacks currently attached
  to the model's modules (block index and capture point), \<open>forward_calls\<close> counts
  the forward evaluations made so far. The two dictionaries always hold all four
  keys, so they are total functions on \<open>capture_key\<close>.
\<close>

record extractor =
  mode :: string
  patch_size :: int
  model :: vit_model
  model_hooks :: "(nat \<times> capture_key) list"
  forward_calls :: nat
  hook_handlers :: "(nat \<times> capture_key) list"
  layers_dict :: "capture_key \<Rightarrow> nat list"
  outputs_dict :: "capture_key \<Rightarrow> real tensor list"

section \<open>Geometry\<close>

text \<open>
  Integer floor division \<^verbatim>\<open>a // b\<close>; Isabelle's \<open>div\<close> on \<open>int\<close> rounds down as Python
  does, and a zero divisor is the exception.
\<close>

definition py_floordiv :: "int \<Rightarrow> int \<Rightarrow> error + int" where
  "py_floordiv a b = (case b = 0 of True \<Rightarrow> Inl ZeroDivisionError | False \<Rightarrow> Inr (a div b))"

definition get_patch_size :: "extractor \<Rightarrow> int" where
  "get_patch_size e = patch_size e"

text \<open>\<^verbatim>\<open>b, c, h, w = input_img_shape\<close> raises ValueError unless there are four entries.\<close>

definition get_width_patch_num :: "extractor \<Rightarrow> int list \<Rightarrow> error + int" where
  "get_width_patch_num e input_img_shape =
     (case input_img_shape of
        [b, c, h, w] \<Rightarrow> py_floordiv w (get_patch_size e)
      | _ \<Rightarrow> Inl ValueError)"

definition get_height_patch_num :: "extractor \<Rightarrow> int list \<Rightarrow> error + int" where
  "get_height_patch_num e input_img_shape =
     (case input_img_shape of
        [b, c, h, w] \<Rightarrow> py_floordiv h (get_patch_size e)
      | _ \<Rightarrow> Inl ValueError)"

definition get_patch_num :: "extractor \<Rightarrow> int list \<Rightarrow> error + int" where
  "get_patch_num e input_img_shape =
     ebind (get_height_patch_num e input_img_shape) (\<lambda>hp.
     ebind (get_width_patch_num e input_img_shape) (\<lambda>wp.
     Inr (1 + hp * wp)))"

definition get_head_num :: "extractor \<Rightarrow> int" where
  "get_head_num e = (if mode e = ''small'' then 6 else 12)"

definition get_embedding_dim :: "extractor \<Rightarrow> int" where
  "get_embedding_dim e = (if mode e = ''small'' then 384 else 768)"

section \<open>Projection decomposition\<close>

text \<open>
  The three functions share the expression
  \<^verbatim>\<open>qkv.reshape(patch_num, 3, head_num, embedding_dim // head_num).permute(1, 2, 0, 3)\<close>
  and differ in the index they select from it.
\<close>

definition split_qkv :: "extractor \<Rightarrow> real tensor \<Rightarrow> int list \<Rightarrow> error + real tensor" where
  "split_qkv e qkv input_img_shape =
     ebind (get_patch_num e input_img_shape) (\<lambda>patch_num.
       let head_num = get_head_num e;
           embedding_dim = get_embedding_dim e
       in ebind (reshape qkv [patch_num, 3, head_num, embedding_dim div head_num]) (\<lambda>r.
          permute r [1, 2, 0, 3]))"

definition get_queries_from_qkv :: "extractor \<Rightarrow> real tensor \<Rightarrow> int list \<Rightarrow> error + real tensor" where
  "get_queries_from_qkv e qkv input_img_shape =
     ebind (split_qkv e qkv input_img_shape) (\<lambda>p. select0 p 0)"

definition get_keys_from_qkv :: "extractor \<Rightarrow> real tensor \<Rightarrow> int list \<Rightarrow> error + real tensor" where
  "get_keys_from_qkv e qkv input_img_shape =
     ebind (split_qkv e qkv input_img_shape) (\<lambda>p. select0 p 1)"

definition get_values_from_qkv :: "extractor \<Rightarrow> real tensor \<Rightarrow> int list \<Rightarrow> error + real tensor" where
  "get_values_from_qkv e qkv input_img_shape =
     ebind (split_qkv e qkv input_img_shape) (\<lambda>p. select0 p 2)"

text \<open>
  The inverse used to state the round trip: stack query, key and value along a new
  leading (triplet) axis, undo the permutation and restore the combined shape.
\<close>

definition stack3 :: "'a tensor \<Rightarrow> 'a tensor \<Rightarrow> 'a tensor \<Rightarrow> error + 'a tensor" where
  "stack3 q k v =
     (if shape q = shape k \<and> shape k = shape v then
        Inr \<lparr>shape = 3 # shape q, elems = elems q @ elems k @ elems v\<rparr>
      else Inl RuntimeError)"

definition recombine_qkv :: "real tensor \<Rightarrow> real tensor \<Rightarrow> real tensor \<Rightarrow> nat list \<Rightarrow> error + real tensor" where
  "recombine_qkv q k v combined_shape =
     ebind (stack3 q k v) (\<lambda>s.
     ebind (permute s [2, 0, 1, 3]) (\<lambda>p.
     reshape p (map int combined_shape)))"

section \<open>Similarity engine\<close>

text \<open>
  Tensor entries are real numbers: the arithmetic of the similarity functions is
  taken exactly, without floating-point rounding.
\<close>

definition default_eps :: real where
  "default_eps = 1 / 10 ^ 8"

text \<open>\<^verbatim>\<open>t.norm(dim=2, keepdim=True)\<close>: the L2 norm along axis 2, which stays with size one.\<close>

definition norm_dim2 :: "real tensor \<Rightarrow> error + real tensor" where
  "norm_dim2 t =
     (case shape t of
        b # n # d # rest \<Rightarrow>
          Inr \<lparr>shape = b # n # 1 # rest,
               elems = tabulate (b # n # 1 # rest)
                         (\<lambda>idx. sqrt (\<Sum>k\<leftarrow>[0..<d]. (elems t ! ravel (shape t) (idx[2 := k]))\<^sup>2))\<rparr>
      | _ \<Rightarrow> Inl IndexError)"

text \<open>
  \<^verbatim>\<open>x @ y\<close> on two tensors of three axes: a matrix product per batch entry, a batch
  of size one being broadcast. Both callers pass operands of three axes (the right
  one is the result of \<^verbatim>\<open>permute(0, 2, 1)\<close>); other ranks are reported as
  RuntimeError here.
\<close>

definition matmul :: "real tensor \<Rightarrow> real tensor \<Rightarrow> error + real tensor" where
  "matmul x y =
     (case (shape x, shape y) of
        ([b, m, k], [b', k', n]) \<Rightarrow>
          if k = k' \<and> (b = b' \<or> b = 1 \<or> b' = 1) then
            (let bb = (if b = 1 then b' else b)
             in Inr \<lparr>shape = [bb, m, n],
                     elems = tabulate [bb, m, n]
                       (\<lambda>idx. \<Sum>j\<leftarrow>[0..<k].
                           entry x [if b = 1 then 0 else idx ! 0, idx ! 1, j] *
                           entry y [if b' = 1 then 0 else idx ! 0, j, idx ! 2])\<rparr>)
          else Inl RuntimeError
      | _ \<Rightarrow> Inl RuntimeError)"

text \<open>\<^verbatim>\<open>torch.clamp(t, min=lo)\<close>.\<close>

definition clamp_min :: "real tensor \<Rightarrow> real \<Rightarrow> real tensor" where
  "clamp_min t lo = \<lparr>shape = shape t, elems = map (\<lambda>v. max v lo) (elems t)\<rparr>"

text \<open>
  Elementwise \<^verbatim>\<open>x / y\<close>. In both callers the two operands are matrix products of
  operands with the same shapes, so their shapes coincide.
\<close>

definition tdiv :: "real tensor \<Rightarrow> real tensor \<Rightarrow> error + real tensor" where
  "tdiv x y =
     (if shape x = shape y then
        Inr \<lparr>shape = shape x, elems = map (\<lambda>(a, b). a / b) (zip (elems x) (elems y))\<rparr>
      else Inl RuntimeError)"

definition attn_cosine_sim :: "real tensor \<Rightarrow> real \<Rightarrow> error + real tensor" where
  "attn_cosine_sim x0 eps =
     ebind (select0 x0 0) (\<lambda>x.
     ebind (norm_dim2 x) (\<lambda>norm1.
     ebind (permute norm1 [0, 2, 1]) (\<lambda>norm1_t.
     ebind (matmul norm1 norm1_t) (\<lambda>prod.
       let factor = clamp_min prod eps
       in ebind (permute x [0, 2, 1]) (\<lambda>x_t.
          ebind (matmul x x_t) (\<lambda>dots.
          tdiv dots factor))))))"

definition cross_cos_sim :: "real tensor \<Rightarrow> real tensor \<Rightarrow> real \<Rightarrow> error + real tensor" where
  "cross_cos_sim x0 y0 eps =
     ebind (select0 x0 0) (\<lambda>x.
     ebind (select0 y0 0) (\<lambda>y.
     ebind (norm_dim2 x) (\<lambda>norm_x.
     ebind (norm_dim2 y) (\<lambda>norm_y.
     ebind (permute norm_y [0, 2, 1]) (\<lambda>norm_y_t.
     ebind (matmul norm_x norm_y_t) (\<lambda>prod.
       let factor = clamp_min prod eps
       in ebind (permute y [0, 2, 1]) (\<lambda>y_t.
          ebind (matmul x y_t) (\<lambda>dots.
          tdiv dots factor))))))))"

text \<open>
  Vocabulary for statements about similarity matrices: token \<open>j\<close> of batch entry
  \<open>i\<close> of \<^verbatim>\<open>x[0]\<close>, the L2 norm and the dot product of two tokens.
\<close>

definition token :: "real tensor \<Rightarrow> nat \<Rightarrow> nat \<Rightarrow> real list" where
  "token x0 i j = map (\<lambda>k. entry x0 [0, i, j, k]) [0..<shape x0 ! 3]"

definition l2_norm :: "real list \<Rightarrow> real" where
  "l2_norm u = sqrt (\<Sum>a\<leftarrow>u. a\<^sup>2)"

definition dot :: "real list \<Rightarrow> real list \<Rightarrow> real" where
  "dot u v = (\<Sum>(a, b)\<leftarrow>zip u v. a * b)"

text \<open>The value the similarity matrix is expected to hold at index \<open>[i, j, l]\<close>.\<close>

definition cosine :: "real tensor \<Rightarrow> real \<Rightarrow> nat list \<Rightarrow> real" where
  "cosine x0 eps idx =
     dot (token x0 (idx ! 0) (idx ! 1)) (token x0 (idx ! 0) (idx ! 2)) /
     max (l2_norm (token x0 (idx ! 0) (idx ! 1)) * l2_norm (token x0 (idx ! 0) (idx ! 2))) eps"

text \<open>\<^verbatim>\<open>t.sum(dim=1)\<close> and division of a tensor by a number.\<close>

definition sum_dim1 :: "real tensor \<Rightarrow> error + real tensor" where
  "sum_dim1 t =
     (case shape t of
        b # h # rest \<Rightarrow>
          Inr \<lparr>shape = b # rest,
               elems = tabulate (b # rest)
                         (\<lambda>idx. \<Sum>k\<leftarrow>[0..<h]. elems t ! ravel (shape t) (hd idx # k # tl idx))\<rparr>
      | _ \<Rightarrow> Inl IndexError)"

definition div_scalar :: "real tensor \<Rightarrow> real \<Rightarrow> real tensor" where
  "div_scalar t c = \<lparr>shape = shape t, elems = map (\<lambda>v. v / c) (elems t)\<rparr>"

section \<open>Instrumentation\<close>

definition all_layers :: "nat list" where
  "all_layers = [0, 1, 2, 3, 4, 5, 6, 7, 8, 9, 10, 11]"

definition init_hooks_data :: "extractor \<Rightarrow> extractor" where
  "init_hooks_data e =
     e\<lparr>layers_dict := (layers_dict e)
          (BLOCK_KEY := all_layers, ATTN_KEY := all_layers,
           QKV_KEY := all_layers, PATCH_IMD_KEY := all_layers),
       outputs_dict := fold (\<lambda>key od. od(key := [])) KEY_LIST (outputs_dict e)\<rparr>"

definition MODE_keys :: "string list" where
  "MODE_keys = [''small'', ''base'', ''tiny'']"

text \<open>
  The constructor. \<open>mdl\<close> is the model that \<^verbatim>\<open>MODE[mode](patch_size=patch_size)\<close>
  builds; \<open>pretrained\<close> tells whether a checkpoint was named, in which case
  \<^verbatim>\<open>load\<close> raises NotImplementedError.
\<close>

definition fresh_extractor :: "string \<Rightarrow> int \<Rightarrow> vit_model \<Rightarrow> extractor" where
  "fresh_extractor md ps mdl =
     init_hooks_data
       \<lparr>mode = md, patch_size = ps, model = mdl, model_hooks = [], forward_calls = 0,
        hook_handlers = [], layers_dict = (\<lambda>key. []), outputs_dict = (\<lambda>key. [])\<rparr>"

definition new_extractor :: "string \<Rightarrow> int \<Rightarrow> bool \<Rightarrow> vit_model \<Rightarrow> error + extractor" where
  "new_extractor md ps pretrained mdl =
     (if md \<notin> set MODE_keys then Inl KeyError
      else if pretrained then Inl NotImplementedError
      else Inr (fresh_extractor md ps mdl))"

definition add_hook :: "nat \<times> capture_key \<Rightarrow> extractor \<Rightarrow> extractor" where
  "add_hook h e = e\<lparr>model_hooks := model_hooks e @ [h], hook_handlers := hook_handlers e @ [h]\<rparr>"

definition register_block :: "nat \<Rightarrow> extractor \<Rightarrow> extractor" where
  "register_block block_idx e =
     (let e1 = (if block_idx \<in> set (layers_dict e BLOCK_KEY)
                then add_hook (block_idx, BLOCK_KEY) e else e);
          e2 = (if block_idx \<in> set (layers_dict e1 ATTN_KEY)
                then add_hook (block_idx, ATTN_KEY) e1 else e1);
          e3 = (if block_idx \<in> set (layers_dict e2 QKV_KEY)
                then add_hook (block_idx, QKV_KEY) e2 else e2)
      in if block_idx \<in> set (layers_dict e3 PATCH_IMD_KEY)
         then add_hook (block_idx, PATCH_IMD_KEY) e3 else e3)"

definition register_hooks :: "extractor \<Rightarrow> extractor" where
  "register_hooks e = fold register_block [0..<blocks (model e)] e"

definition clear_hooks :: "extractor \<Rightarrow> extractor" where
  "clear_hooks e =
     (fold (\<lambda>handler e'. e'\<lparr>model_hooks := remove1 handler (model_hooks e')\<rparr>) (hook_handlers e) e)
       \<lparr>hook_handlers := []\<rparr>"

text \<open>
  What a callback of each capture point appends when its module has produced its
  output; the attention module returns a pair, of which the callback keeps
  \<^verbatim>\<open>output[0]\<close>.
\<close>

definition captured :: "capture_key \<Rightarrow> stage_out \<Rightarrow> real tensor" where
  "captured key so =
     (case key of
        BLOCK_KEY \<Rightarrow> block_output so
      | ATTN_KEY \<Rightarrow> attn_drop_output so
      | QKV_KEY \<Rightarrow> qkv_output so
      | PATCH_IMD_KEY \<Rightarrow> fst (attn_output so))"

text \<open>
  One block of the forward evaluation: every callback attached to the block fires
  once and appends to the list of its own key.
\<close>

definition run_stage :: "nat \<times> stage_out \<Rightarrow> extractor \<Rightarrow> extractor" where
  "run_stage st e =
     e\<lparr>outputs_dict :=
         (\<lambda>key. outputs_dict e key @
                 replicate (count_list (model_hooks e) (fst st, key)) (captured key (snd st)))\<rparr>"

text \<open>\<^verbatim>\<open>self.model(input_img)\<close>: the blocks run in order until the end or an exception.\<close>

definition run_model :: "extractor \<Rightarrow> real tensor \<Rightarrow> (error + unit) \<times> extractor" where
  "run_model e input_img =
     (let (outs, err) = forward (model e) input_img;
          e1 = fold run_stage (zip [0..<length outs] outs) (e\<lparr>forward_calls := forward_calls e + 1\<rparr>)
      in (case err of None \<Rightarrow> Inr () | Some x \<Rightarrow> Inl x, e1))"

definition get_feature_from_input :: "extractor \<Rightarrow> real tensor \<Rightarrow> (error + real tensor list) \<times> extractor" where
  "get_feature_from_input e input_img =
     (case run_model (register_hooks e) input_img of
        (Inl err, e1) \<Rightarrow> (Inl err, e1)
      | (Inr _, e1) \<Rightarrow>
          (let feature = outputs_dict e1 BLOCK_KEY
           in (Inr feature, init_hooks_data (clear_hooks e1))))"

definition get_qkv_feature_from_input :: "extractor \<Rightarrow> real tensor \<Rightarrow> (error + real tensor list) \<times> extractor" where
  "get_qkv_feature_from_input e input_img =
     (case run_model (register_hooks e) input_img of
        (Inl err, e1) \<Rightarrow> (Inl err, e1)
      | (Inr _, e1) \<Rightarrow>
          (let feature = outputs_dict e1 QKV_KEY
           in (Inr feature, init_hooks_data (clear_hooks e1))))"

definition get_attn_feature_from_input :: "extractor \<Rightarrow> real tensor \<Rightarrow> (error + real tensor list) \<times> extractor" where
  "get_attn_feature_from_input e input_img =
     (case run_model (register_hooks e) input_img of
        (Inl err, e1) \<Rightarrow> (Inl err, e1)
      | (Inr _, e1) \<Rightarrow>
          (let feature = outputs_dict e1 ATTN_KEY
           in (Inr feature, init_hooks_data (clear_hooks e1))))"

text \<open>
  Vocabulary for statements about the three extraction functions: their common
  body with the key as a parameter, the list of the three, the numbered block
  outputs of a forward evaluation, and the state the functions are meant to
  leave: empty handler list, every key selecting all twelve layers, empty buffers
  (and no callback attached to the model).
\<close>

definition capture_run :: "capture_key \<Rightarrow> extractor \<Rightarrow> real tensor \<Rightarrow> (error + real tensor list) \<times> extractor" where
  "capture_run key e input_img =
     (case run_model (register_hooks e) input_img of
        (Inl err, e1) \<Rightarrow> (Inl err, e1)
      | (Inr _, e1) \<Rightarrow> (Inr (outputs_dict e1 key), init_hooks_data (clear_hooks e1)))"

definition extraction_ops :: "(extractor \<Rightarrow> real tensor \<Rightarrow> (error + real tensor list) \<times> extractor) list" where
  "extraction_ops = [get_feature_from_input, get_qkv_feature_from_input, get_attn_feature_from_input]"

definition stages :: "extractor \<Rightarrow> real tensor \<Rightarrow> (nat \<times> stage_out) list" where
  "stages e img = zip [0..<length (fst (forward (model e) img))] (fst (forward (model e) img))"

definition is_cleared :: "extractor \<Rightarrow> bool" where
  "is_cleared e =
     (hook_handlers e = []
      \<and> layers_dict e BLOCK_KEY = all_layers \<and> layers_dict e ATTN_KEY = all_layers
      \<and> layers_dict e QKV_KEY = all_layers \<and> layers_dict e PATCH_IMD_KEY = all_layers
      \<and> outputs_dict e BLOCK_KEY = [] \<and> outputs_dict e ATTN_KEY = []
      \<and> outputs_dict e QKV_KEY = [] \<and> outputs_dict e PATCH_IMD_KEY = [])"

definition is_reset :: "extractor \<Rightarrow> bool" where
  "is_reset e = (is_cleared e \<and> model_hooks e = [])"

section \<open>Facade\<close>

text \<open>A pure computation on the value a stateful call returned; an error passes through.\<close>

definition and_then :: "(error + 'a) \<times> extractor \<Rightarrow> ('a \<Rightarrow> error + 'b) \<Rightarrow> (error + 'b) \<times> extractor" where
  "and_then r f = (ebind (fst r) f, snd r)"

definition get_keys_from_input :: "extractor \<Rightarrow> real tensor \<Rightarrow> int \<Rightarrow> (error + real tensor) \<times> extractor" where
  "get_keys_from_input e input_img layer_num =
     and_then (get_qkv_feature_from_input e input_img) (\<lambda>feature.
       ebind (py_index feature layer_num) (\<lambda>qkv_features.
       get_keys_from_qkv e qkv_features (map int (shape input_img))))"

definition get_values_from_input :: "extractor \<Rightarrow> real tensor \<Rightarrow> int \<Rightarrow> (error + real tensor) \<times> extractor" where
  "get_values_from_input e input_img layer_num =
     and_then (get_qkv_feature_from_input e input_img) (\<lambda>feature.
       ebind (py_index feature layer_num) (\<lambda>qkv_features.
       get_values_from_qkv e qkv_features (map int (shape input_img))))"

definition get_queries_from_input :: "extractor \<Rightarrow> real tensor \<Rightarrow> int \<Rightarrow> (error + real tensor) \<times> extractor" where
  "get_queries_from_input e input_img layer_num =
     and_then (get_qkv_feature_from_input e input_img) (\<lambda>feature.
       ebind (py_index feature layer_num) (\<lambda>qkv_features.
       get_queries_from_qkv e qkv_features (map int (shape input_img))))"

definition get_tokens_from_input :: "extractor \<Rightarrow> real tensor \<Rightarrow> int \<Rightarrow> (error + real tensor) \<times> extractor" where
  "get_tokens_from_input e input_img layer_num =
     and_then (get_feature_from_input e input_img) (\<lambda>feature. py_index feature layer_num)"

text \<open>
  \<^verbatim>\<open>h, t, d = keys.shape\<close> followed by
  \<^verbatim>\<open>keys.transpose(0, 1).reshape(t, h * d)[None, None, ...]\<close>.
\<close>

definition concat_heads :: "real tensor \<Rightarrow> error + real tensor" where
  "concat_heads keys =
     (case shape keys of
        [h, t, d] \<Rightarrow>
          ebind (permute keys [1, 0, 2]) (\<lambda>tr.
          ebind (reshape tr [int t, int h * int d]) (\<lambda>c.
          Inr (unsqueeze2 c)))
      | _ \<Rightarrow> Inl ValueError)"

definition get_keys_self_sim_from_input :: "extractor \<Rightarrow> real tensor \<Rightarrow> int \<Rightarrow> (error + real tensor) \<times> extractor" where
  "get_keys_self_sim_from_input e input_img layer_num =
     and_then (get_keys_from_input e input_img layer_num) (\<lambda>keys.
       ebind (concat_heads keys) (\<lambda>concatenated_keys.
       attn_cosine_sim concatenated_keys default_eps))"

definition get_values_self_sim_from_input :: "extractor \<Rightarrow> real tensor \<Rightarrow> int \<Rightarrow> (error + real tensor) \<times> extractor" where
  "get_values_self_sim_from_input e input_img layer_num =
     and_then (get_values_from_input e input_img layer_num) (\<lambda>vals.
       ebind (concat_heads vals) (\<lambda>concatenated_values.
       attn_cosine_sim concatenated_values default_eps))"

definition get_queries_self_sim_from_input :: "extractor \<Rightarrow> real tensor \<Rightarrow> int \<Rightarrow> (error + real tensor) \<times> extractor" where
  "get_queries_self_sim_from_input e input_img layer_num =
     and_then (get_queries_from_input e input_img layer_num) (\<lambda>queries.
       ebind (concat_heads queries) (\<lambda>concatenated_values.
       attn_cosine_sim concatenated_values default_eps))"

definition get_tokens_self_sim_from_input :: "extractor \<Rightarrow> real tensor \<Rightarrow> int \<Rightarrow> (error + real tensor) \<times> extractor" where
  "get_tokens_self_sim_from_input e input_img layer_num =
     and_then (get_tokens_from_input e input_img layer_num) (\<lambda>tokens.
       ebind (concat_heads tokens) (\<lambda>concatenated_values.
       attn_cosine_sim concatenated_values default_eps))"

text \<open>
  The mean is computed whether or not it is asked for; \<^verbatim>\<open>return_mean\<close> only decides
  whether the second component is the mean or \<^verbatim>\<open>None\<close>.
\<close>

definition get_attentions_from_input ::
  "extractor \<Rightarrow> real tensor \<Rightarrow> int \<Rightarrow> bool \<Rightarrow> (error + real tensor \<times> real tensor option) \<times> extractor" where
  "get_attentions_from_input e input_img layer_num return_mean =
     and_then (get_attn_feature_from_input e input_img) (\<lambda>feature.
       ebind (py_index feature layer_num) (\<lambda>attn_output_weights.
       ebind (sum_dim1 attn_output_weights) (\<lambda>summed.
         let attn_output_weights_mean = div_scalar summed (real_of_int (get_head_num e))
         in Inr (attn_output_weights, if return_mean then Some attn_output_weights_mean else None))))"

definition get_keys_cross_sim_from_input ::
  "extractor \<Rightarrow> real tensor \<Rightarrow> real tensor \<Rightarrow> int \<Rightarrow> (error + real tensor) \<times> extractor" where
  "get_keys_cross_sim_from_input e source_img target_img layer_num =
     (case get_keys_from_input e source_img layer_num of
        (Inl err, e1) \<Rightarrow> (Inl err, e1)
      | (Inr src_keys, e1) \<Rightarrow>
          (case get_keys_from_input e1 target_img layer_num of
             (Inl err, e2) \<Rightarrow> (Inl err, e2)
           | (Inr tgt_keys, e2) \<Rightarrow>
               (if shape src_keys \<noteq> shape tgt_keys then Inl AssertionError
                else ebind (concat_heads src_keys) (\<lambda>concatenated_src_keys.
                     ebind (concat_heads tgt_keys) (\<lambda>concatenated_tgt_keys.
                     cross_cos_sim concatenated_src_keys concatenated_tgt_keys default_eps)),
                e2)))"

definition get_cls_token_from_input :: "extractor \<Rightarrow> real tensor \<Rightarrow> int \<Rightarrow> (error + real tensor) \<times> extractor" where
  "get_cls_token_from_input e input_img layer_num =
     and_then (get_feature_from_input e input_img) (\<lambda>feature.
       ebind (py_index feature layer_num) slice_col0)"

section \<open>Sample objects\<close>

text \<open>
  A transformer of twelve blocks for patch size 16 and the constants of the
  \<^verbatim>\<open>base\<close> variant (width 768, 12 heads), with constant outputs of the right
  shapes, and images of 32 by 32 and of 16 by 16 pixels.
\<close>

definition const_tensor :: "nat list \<Rightarrow> real \<Rightarrow> real tensor" where
  "const_tensor shp c = \<lparr>shape = shp, elems = replicate (prod_list shp) c\<rparr>"

definition sample_stage :: "nat \<Rightarrow> stage_out" where
  "sample_stage p =
     \<lparr>block_output = const_tensor [1, p, 768] 1,
      attn_drop_output = const_tensor [1, 12, p, p] (1 / real p),
      qkv_output = const_tensor [1, p, 2304] 1,
      attn_output = (const_tensor [1, p, 768] 1, const_tensor [1, 12, p, p] (1 / real p))\<rparr>"

definition sample_model :: vit_model where
  "sample_model =
     \<lparr>blocks = 12,
      forward = (\<lambda>img. (replicate 12 (sample_stage (1 + (shape img ! 2 div 16) * (shape img ! 3 div 16))),
                        None))\<rparr>"

definition sample_extractor :: extractor where
  "sample_extractor = fresh_extractor ''base'' 16 sample_model"

definition image_32 :: "real tensor" where
  "image_32 = const_tensor [1, 3, 32, 32] 0"

definition image_16 :: "real tensor" where
  "image_16 = const_tensor [1, 3, 16, 16] 0"

text \<open>
  A transformer of twelve blocks whose attention has three heads (width 192), as
  a \<^verbatim>\<open>tiny\<close> variant would have, and an extractor of mode \<^verbatim>\<open>tiny\<close> on it.
\<close>

definition tiny_stage :: "nat \<Rightarrow> stage_out" where
  "tiny_stage p =
     \<lparr>block_output = const_tensor [1, p, 192] 1,
      attn_drop_output = const_tensor [1, 3, p, p] (1 / 2),
      qkv_output = const_tensor [1, p, 576] 1,
      attn_output = (const_tensor [1, p, 192] 1, const_tensor [1, 3, p, p] (1 / 2))\<rparr>"

definition tiny_model :: vit_model where
  "tiny_model =
     \<lparr>blocks = 12,
      forward = (\<lambda>img. (replicate 12 (tiny_stage (1 + (shape img ! 2 div 16) * (shape img ! 3 div 16))),
                        None))\<rparr>"

definition tiny_extractor :: extractor where
  "tiny_extractor = fresh_extractor ''tiny'' 16 tiny_model"

text \<open>Small token sets: one token of norm \<open>1 / 100000\<close>, and two tokens of two channels.\<close>

definition faint_token :: "real tensor" where
  "faint_token = \<lparr>shape = [1, 1, 1, 1], elems = [1 / 100000]\<rparr>"

definition two_tokens :: "real tensor" where
  "two_tokens = \<lparr>shape = [1, 1, 2, 2], elems = [1, 2, 3, 4]\<rparr>"

section \<open>Basic facts\<close>

lemma ebind_Inr [simp]: "ebind (Inr v) f = f v"
  by (simp add: ebind_def)

lemma ebind_Inl [simp]: "ebind (Inl err) f = Inl err"
  by (simp add: ebind_def)

lemma ebind_assoc: "ebind (ebind m f) g = ebind m (\<lambda>v. ebind (f v) g)"
  by (simp add: ebind_def split: sum.splits)

subsection \<open>Row-major indexing\<close>

lemma length_concat_uniform:
  "(\<And>x. x \<in> set xss \<Longrightarrow> length x = n) \<Longrightarrow> length (concat xss) = length xss * n"
  by (induction xss) auto

lemma nth_concat_uniform:
  "(\<And>x. x \<in> set xss \<Longrightarrow> length x = n) \<Longrightarrow> i < length xss \<Longrightarrow> j < n
     \<Longrightarrow> concat xss ! (i * n + j) = xss ! i ! j"
proof (induction xss arbitrary: i)
  case Nil
  then show ?case by simp
next
  case (Cons xs xss)
  show ?case
  proof (cases i)
    case 0
    with Cons.prems show ?thesis by (simp add: nth_append)
  next
    case (Suc k)
    have "concat (xs # xss) ! (i * n + j) = concat xss ! (k * n + j)"
      using Cons.prems Suc by (simp add: nth_append)
    also have "\<dots> = xss ! k ! j"
      using Cons.prems Suc by (intro Cons.IH) auto
    finally show ?thesis using Suc by simp
  qed
qed

lemma length_tabulate: "length (tabulate shp f) = prod_list shp"
proof (induction shp arbitrary: f)
  case Nil
  then show ?case by simp
next
  case (Cons n ns)
  have "length (tabulate (n # ns) f) = length (map (\<lambda>i. tabulate ns (\<lambda>idx. f (i # idx))) [0..<n]) * prod_list ns"
    unfolding tabulate.simps by (rule length_concat_uniform) (auto simp: Cons.IH)
  then show ?case by simp
qed

lemma ravel_less: "valid_index shp idx \<Longrightarrow> ravel shp idx < prod_list shp"
proof (induction shp idx rule: ravel.induct)
  case (1 n ns i js)
  then have i: "i < n" and v: "valid_index ns js" by (auto simp: valid_index_def)
  have r: "ravel ns js < prod_list ns" using 1 v by simp
  have "i * prod_list ns + ravel ns js < Suc i * prod_list ns" using r by simp
  also have "\<dots> \<le> n * prod_list ns" using i by (intro mult_le_mono1) simp
  finally show ?case by simp
qed (auto simp: valid_index_def)

lemma nth_tabulate:
  "valid_index shp idx \<Longrightarrow> tabulate shp f ! ravel shp idx = f idx"
proof (induction shp idx arbitrary: f rule: ravel.induct)
  case (1 n ns i js)
  then have i: "i < n" and v: "valid_index ns js" by (auto simp: valid_index_def)
  let ?xss = "map (\<lambda>i. tabulate ns (\<lambda>idx. f (i # idx))) [0..<n]"
  have "concat ?xss ! (i * prod_list ns + ravel ns js) = ?xss ! i ! ravel ns js"
    by (rule nth_concat_uniform) (auto simp: length_tabulate i ravel_less[OF v])
  also have "\<dots> = tabulate ns (\<lambda>idx. f (i # idx)) ! ravel ns js" using i by simp
  also have "\<dots> = f (i # js)" using 1 v by simp
  finally show ?case by simp
qed (auto simp: valid_index_def)

lemma tabulate_cong:
  "(\<And>idx. valid_index shp idx \<Longrightarrow> f idx = g idx) \<Longrightarrow> tabulate shp f = tabulate shp g"
proof (induction shp arbitrary: f g)
  case Nil
  then show ?case by (simp add: valid_index_def)
next
  case (Cons n ns)
  have "\<And>i. i < n \<Longrightarrow> tabulate ns (\<lambda>idx. f (i # idx)) = tabulate ns (\<lambda>idx. g (i # idx))"
  proof -
    fix i assume "i < n"
    show "tabulate ns (\<lambda>idx. f (i # idx)) = tabulate ns (\<lambda>idx. g (i # idx))"
    proof (rule Cons.IH)
      fix idx assume "valid_index ns idx"
      then have "valid_index (n # ns) (i # idx)" using \<open>i < n\<close> by (simp add: valid_index_def)
      then show "f (i # idx) = g (i # idx)" by (rule Cons.prems)
    qed
  qed
  then have "map (\<lambda>i. tabulate ns (\<lambda>idx. f (i # idx))) [0..<n]
             = map (\<lambda>i. tabulate ns (\<lambda>idx. g (i # idx))) [0..<n]"
    by (intro map_cong) auto
  then show ?case unfolding tabulate.simps by (rule arg_cong)
qed

lemma concat_chunks:
  "length xs = n * m \<Longrightarrow> concat (map (\<lambda>i. take m (drop (i * m) xs)) [0..<n]) = xs"
proof (induction n arbitrary: xs)
  case 0
  then show ?case by simp
next
  case (Suc n)
  have "concat (map (\<lambda>i. take m (drop (i * m) xs)) [0..<Suc n])
        = concat (map (\<lambda>i. take m (drop (i * m) xs)) [0..<n]) @ take m (drop (n * m) xs)"
    by simp
  also have "concat (map (\<lambda>i. take m (drop (i * m) xs)) [0..<n])
        = concat (map (\<lambda>i. take m (drop (i * m) (take (n * m) xs))) [0..<n])"
  proof -
    have "\<And>i. i < n \<Longrightarrow> take m (drop (i * m) (take (n * m) xs)) = take m (drop (i * m) xs)"
    proof -
      fix i assume "i < n"
      then have "Suc i * m \<le> n * m" by (intro mult_le_mono1) simp
      then have "m \<le> n * m - i * m" by simp
      then show "take m (drop (i * m) (take (n * m) xs)) = take m (drop (i * m) xs)"
        by (simp add: drop_take min_def)
    qed
    then have "map (\<lambda>i. take m (drop (i * m) xs)) [0..<n]
               = map (\<lambda>i. take m (drop (i * m) (take (n * m) xs))) [0..<n]"
      by (intro map_cong) auto
    then show ?thesis by (rule arg_cong)
  qed
  also have "\<dots> = take (n * m) xs" using Suc.prems by (intro Suc.IH) simp
  also have "take (n * m) xs @ take m (drop (n * m) xs) = xs"
    using Suc.prems by (metis append_take_drop_id mult_Suc add.commute diff_add_inverse2 length_drop order_refl take_all)
  finally show ?case .
qed

lemma tabulate_ravel:
  "length xs = prod_list shp \<Longrightarrow> tabulate shp (\<lambda>idx. xs ! ravel shp idx) = xs"
proof (induction shp arbitrary: xs)
  case Nil
  then show ?case by (cases xs) auto
next
  case (Cons n ns)
  let ?m = "prod_list ns"
  have "\<And>i. i < n \<Longrightarrow> tabulate ns (\<lambda>idx. xs ! ravel (n # ns) (i # idx)) = take ?m (drop (i * ?m) xs)"
  proof -
    fix i assume i: "i < n"
    have "Suc i * ?m \<le> n * ?m" using i by (intro mult_le_mono1) simp
    then have len: "length (take ?m (drop (i * ?m) xs)) = ?m" using Cons.prems by simp
    have "tabulate ns (\<lambda>idx. xs ! ravel (n # ns) (i # idx))
          = tabulate ns (\<lambda>idx. take ?m (drop (i * ?m) xs) ! ravel ns idx)"
    proof (rule tabulate_cong)
      fix idx assume v: "valid_index ns idx"
      have r: "ravel ns idx < ?m" by (rule ravel_less[OF v])
      have "i * ?m + ravel ns idx < Suc i * ?m" using r by simp
      with \<open>Suc i * ?m \<le> n * ?m\<close> have "i * ?m + ravel ns idx < length xs" using Cons.prems by simp
      then show "xs ! ravel (n # ns) (i # idx) = take ?m (drop (i * ?m) xs) ! ravel ns idx"
        using r by simp
    qed
    also have "\<dots> = take ?m (drop (i * ?m) xs)" by (rule Cons.IH[OF len])
    finally show "tabulate ns (\<lambda>idx. xs ! ravel (n # ns) (i # idx)) = take ?m (drop (i * ?m) xs)" .
  qed
  then have "map (\<lambda>i. tabulate ns (\<lambda>idx. xs ! ravel (n # ns) (i # idx))) [0..<n]
             = map (\<lambda>i. take ?m (drop (i * ?m) xs)) [0..<n]"
    by (intro map_cong) auto
  then have "tabulate (n # ns) (\<lambda>idx. xs ! ravel (n # ns) idx)
             = concat (map (\<lambda>i. take ?m (drop (i * ?m) xs)) [0..<n])"
    unfolding tabulate.simps by (rule arg_cong)
  also have "\<dots> = xs" using Cons.prems by (intro concat_chunks) simp
  finally show ?case .
qed

declare tabulate.simps [simp del]

lemma valid_index4:
  "valid_index [a, b, c, d] idx \<longleftrightarrow> (\<exists>i j k l. idx = [i, j, k, l] \<and> i < a \<and> j < b \<and> k < c \<and> l < d)"
  by (auto simp: valid_index_def list_all2_Cons2)

lemma upt_0_4: "[0..<4] = [0, 1, 2, 3]"
  by (simp add: upt_rec_numeral eval_nat_numeral)

lemma upt_0_3: "[0..<3] = [0, 1, 2]"
  by (simp add: upt_rec_numeral eval_nat_numeral)

lemma axis_pos_1203:
  "axis_pos [1, 2, 0, 3] 0 = 2" "axis_pos [1, 2, 0, 3] 1 = 0"
  "axis_pos [1, 2, 0, 3] 2 = 1" "axis_pos [1, 2, 0, 3] 3 = 3"
  "axis_pos [1, 2, 0, 3] (Suc 0) = 0" "axis_pos [1, 2, 0, 3] (Suc (Suc 0)) = 1"
  "axis_pos [1, 2, 0, 3] (Suc (Suc (Suc 0))) = 3"
  by (simp_all add: axis_pos_def)

lemma axis_pos_2013:
  "axis_pos [2, 0, 1, 3] 0 = 1" "axis_pos [2, 0, 1, 3] 1 = 2"
  "axis_pos [2, 0, 1, 3] 2 = 0" "axis_pos [2, 0, 1, 3] 3 = 3"
  "axis_pos [2, 0, 1, 3] (Suc 0) = 2" "axis_pos [2, 0, 1, 3] (Suc (Suc 0)) = 0"
  "axis_pos [2, 0, 1, 3] (Suc (Suc (Suc 0))) = 3"
  by (simp_all add: axis_pos_def)

lemma permute_1203:
  assumes "shape r = [a, b, c, d]"
  shows "permute r [1, 2, 0, 3] =
           Inr \<lparr>shape = [b, c, a, d],
                elems = tabulate [b, c, a, d]
                          (\<lambda>idx. elems r ! ravel [a, b, c, d] [idx ! 2, idx ! 0, idx ! 1, idx ! 3])\<rparr>"
  using assms by (simp add: permute_def upt_0_4 axis_pos_1203 del: One_nat_def)

lemma permute_2013:
  assumes "shape p = [b, c, a, d]"
  shows "permute p [2, 0, 1, 3] =
           Inr \<lparr>shape = [a, b, c, d],
                elems = tabulate [a, b, c, d]
                          (\<lambda>idx. elems p ! ravel [b, c, a, d] [idx ! 1, idx ! 2, idx ! 0, idx ! 3])\<rparr>"
  using assms by (simp add: permute_def upt_0_4 axis_pos_2013 del: One_nat_def)

lemma permute_round_trip:
  assumes s: "shape r = [a, b, c, d]" and w: "wf_tensor r"
  shows "\<exists>p. permute r [1, 2, 0, 3] = Inr p \<and> shape p = [b, c, a, d] \<and> wf_tensor p
             \<and> permute p [2, 0, 1, 3] = Inr r"
proof -
  define f where "f = (\<lambda>idx. elems r ! ravel [a, b, c, d] [idx ! 2, idx ! 0, idx ! 1, idx ! 3])"
  define p where "p = \<lparr>shape = [b, c, a, d], elems = tabulate [b, c, a, d] f\<rparr>"
  have 1: "permute r [1, 2, 0, 3] = Inr p"
    unfolding p_def f_def by (rule permute_1203[OF s])
  have 2: "shape p = [b, c, a, d]" by (simp add: p_def)
  have 3: "wf_tensor p" by (simp add: wf_tensor_def p_def length_tabulate)
  have len: "length (elems r) = prod_list [a, b, c, d]" using w s by (simp add: wf_tensor_def)
  have "tabulate [a, b, c, d] (\<lambda>idx. elems p ! ravel [b, c, a, d] [idx ! 1, idx ! 2, idx ! 0, idx ! 3])
        = tabulate [a, b, c, d] (\<lambda>idx. elems r ! ravel [a, b, c, d] idx)"
  proof (rule tabulate_cong)
    fix idx assume "valid_index [a, b, c, d] idx"
    then obtain i j k l where idx: "idx = [i, j, k, l]" and b: "i < a" "j < b" "k < c" "l < d"
      unfolding valid_index4 by blast
    have v: "valid_index [b, c, a, d] [j, k, i, l]" using b by (simp add: valid_index4)
    have "elems p ! ravel [b, c, a, d] [j, k, i, l] = f [j, k, i, l]"
      unfolding p_def by (simp only: tensor.simps nth_tabulate[OF v])
    then show "elems p ! ravel [b, c, a, d] [idx ! 1, idx ! 2, idx ! 0, idx ! 3]
               = elems r ! ravel [a, b, c, d] idx"
      by (simp add: idx f_def)
  qed
  also have "\<dots> = elems r" by (rule tabulate_ravel[OF len])
  finally have "permute p [2, 0, 1, 3] = Inr \<lparr>shape = [a, b, c, d], elems = elems r\<rparr>"
    by (simp only: permute_2013[OF 2])
  then have 4: "permute p [2, 0, 1, 3] = Inr r" using s by simp
  show ?thesis using 1 2 3 4 by blast
qed

lemma take_drop_three:
  assumes "length xs = 3 * n"
  shows "take n (drop (0 * n) xs) @ take n (drop (1 * n) xs) @ take n (drop (2 * n) xs) = xs"
proof -
  have "concat (map (\<lambda>i. take n (drop (i * n) xs)) [0..<3]) = xs"
    using assms by (intro concat_chunks) simp
  then show ?thesis by (simp add: upt_0_3)
qed

subsection \<open>Reshaping and slicing\<close>

lemma reshape_exact:
  assumes nn: "\<And>d. d \<in> set dims \<Longrightarrow> 0 \<le> d"
    and sz: "prod_list dims = int (length (elems t))"
  shows "reshape t dims = Inr \<lparr>shape = map nat dims, elems = elems t\<rparr>"
proof -
  have f1: "filter (\<lambda>d. d \<noteq> -1) dims = dims"
    using nn by (induction dims) fastforce+
  have f2: "filter (\<lambda>d. d = -1) dims = []"
    using nn by (induction dims) fastforce+
  have f3: "\<not> (\<exists>d \<in> set dims. d < -1)" using nn by fastforce
  show ?thesis
    unfolding reshape_def Let_def f1 f2 using f3 sz by simp
qed

lemma select0_slice:
  assumes "shape p = n # ns" and "i < n"
  shows "select0 p i = Inr \<lparr>shape = ns, elems = take (prod_list ns) (drop (i * prod_list ns) (elems p))\<rparr>"
  using assms by (simp add: select0_def)

subsection \<open>Similarity matrices\<close>

lemma map_tabulate: "map g (tabulate shp f) = tabulate shp (\<lambda>idx. g (f idx))"
proof (induction shp arbitrary: f)
  case Nil
  then show ?case by (simp add: tabulate.simps)
next
  case (Cons n ns)
  show ?case
    by (simp add: tabulate.simps map_concat comp_def Cons.IH)
qed

lemma tabulate_map: "tabulate shp f = map f (tabulate shp (\<lambda>idx. idx))"
  by (simp add: map_tabulate)

lemma zip_map_same: "zip (map f xs) (map g xs) = map (\<lambda>x. (f x, g x)) xs"
  by (induction xs) auto

lemma zip_tabulate:
  "map h (zip (tabulate shp f) (tabulate shp g)) = tabulate shp (\<lambda>idx. h (f idx, g idx))"
proof -
  have "zip (tabulate shp f) (tabulate shp g)
        = zip (map f (tabulate shp (\<lambda>idx. idx))) (map g (tabulate shp (\<lambda>idx. idx)))"
    using tabulate_map[of shp f] tabulate_map[of shp g] by simp
  also have "\<dots> = map (\<lambda>idx. (f idx, g idx)) (tabulate shp (\<lambda>idx. idx))"
    by (rule zip_map_same)
  finally have "map h (zip (tabulate shp f) (tabulate shp g))
        = map (\<lambda>idx. h (f idx, g idx)) (tabulate shp (\<lambda>idx. idx))"
    by (simp add: comp_def)
  then show ?thesis by (simp add: map_tabulate)
qed

lemma valid_index3:
  "valid_index [a, b, c] idx \<longleftrightarrow> (\<exists>i j k. idx = [i, j, k] \<and> i < a \<and> j < b \<and> k < c)"
  by (auto simp: valid_index_def list_all2_Cons2)

lemma axis_pos_021:
  "axis_pos [0, 2, 1] 0 = 0" "axis_pos [0, 2, 1] 1 = 2" "axis_pos [0, 2, 1] 2 = 1"
  "axis_pos [0, 2, 1] (Suc 0) = 2" "axis_pos [0, 2, 1] (Suc (Suc 0)) = 1"
  by (simp_all add: axis_pos_def)

lemma permute_021:
  assumes "shape x = [b, m, n]"
  shows "permute x [0, 2, 1] =
           Inr \<lparr>shape = [b, n, m],
                elems = tabulate [b, n, m] (\<lambda>idx. elems x ! ravel [b, m, n] [idx ! 0, idx ! 2, idx ! 1])\<rparr>"
  using assms by (simp add: permute_def upt_0_3 axis_pos_021 del: One_nat_def)

lemma permute_021_tab:
  assumes "x = \<lparr>shape = [b, m, n], elems = tabulate [b, m, n] f\<rparr>"
  shows "permute x [0, 2, 1] =
           Inr \<lparr>shape = [b, n, m], elems = tabulate [b, n, m] (\<lambda>idx. f [idx ! 0, idx ! 2, idx ! 1])\<rparr>"
proof -
  have s: "shape x = [b, m, n]" using assms by simp
  have "tabulate [b, n, m] (\<lambda>idx. elems x ! ravel [b, m, n] [idx ! 0, idx ! 2, idx ! 1])
        = tabulate [b, n, m] (\<lambda>idx. f [idx ! 0, idx ! 2, idx ! 1])"
  proof (rule tabulate_cong)
    fix idx assume "valid_index [b, n, m] idx"
    then obtain i j k where idx: "idx = [i, j, k]" and bd: "i < b" "j < n" "k < m"
      unfolding valid_index3 by blast
    have v: "valid_index [b, m, n] [i, k, j]" using bd by (simp add: valid_index3)
    show "elems x ! ravel [b, m, n] [idx ! 0, idx ! 2, idx ! 1] = f [idx ! 0, idx ! 2, idx ! 1]"
      using nth_tabulate[OF v, of f] by (simp add: idx assms)
  qed
  then show ?thesis using permute_021[OF s] by simp
qed

lemma sum_list_upt_cong:
  "(\<And>k. k < n \<Longrightarrow> f k = g k) \<Longrightarrow> (\<Sum>k\<leftarrow>[0..<n]. f k) = (\<Sum>k\<leftarrow>[0..<n]. (g k :: real))"
  by (rule arg_cong[where f = sum_list]) (simp add: map_eq_conv)

lemma matmul_tab:
  assumes x: "x = \<lparr>shape = [b, m, k], elems = tabulate [b, m, k] f\<rparr>"
    and y: "y = \<lparr>shape = [b, k, n], elems = tabulate [b, k, n] g\<rparr>"
  shows "matmul x y =
           Inr \<lparr>shape = [b, m, n],
                elems = tabulate [b, m, n]
                          (\<lambda>idx. \<Sum>j\<leftarrow>[0..<k]. f [idx ! 0, idx ! 1, j] * g [idx ! 0, j, idx ! 2])\<rparr>"
proof -
  have "tabulate [b, m, n]
          (\<lambda>idx. \<Sum>j\<leftarrow>[0..<k]. entry x [if b = 1 then 0 else idx ! 0, idx ! 1, j] *
                                entry y [if b = 1 then 0 else idx ! 0, j, idx ! 2])
        = tabulate [b, m, n]
          (\<lambda>idx. \<Sum>j\<leftarrow>[0..<k]. f [idx ! 0, idx ! 1, j] * g [idx ! 0, j, idx ! 2])"
  proof (rule tabulate_cong)
    fix idx assume "valid_index [b, m, n] idx"
    then obtain i r c where idx: "idx = [i, r, c]" and bd: "i < b" "r < m" "c < n"
      unfolding valid_index3 by blast
    have i0: "(if b = 1 then 0 else i) = i" using bd by auto
    show "(\<Sum>j\<leftarrow>[0..<k]. entry x [if b = 1 then 0 else idx ! 0, idx ! 1, j] *
                           entry y [if b = 1 then 0 else idx ! 0, j, idx ! 2])
          = (\<Sum>j\<leftarrow>[0..<k]. f [idx ! 0, idx ! 1, j] * g [idx ! 0, j, idx ! 2])"
    proof (rule sum_list_upt_cong)
      fix j assume j: "j < k"
      have vx: "valid_index [b, m, k] [i, r, j]" and vy: "valid_index [b, k, n] [i, j, c]"
        using bd j by (simp_all add: valid_index3)
      have ex: "entry x [i, r, j] = f [i, r, j]"
        unfolding entry_def x tensor.simps by (rule nth_tabulate[OF vx])
      have ey: "entry y [i, j, c] = g [i, j, c]"
        unfolding entry_def y tensor.simps by (rule nth_tabulate[OF vy])
      show "entry x [if b = 1 then 0 else idx ! 0, idx ! 1, j] *
            entry y [if b = 1 then 0 else idx ! 0, j, idx ! 2]
            = f [idx ! 0, idx ! 1, j] * g [idx ! 0, j, idx ! 2]"
        using ex ey bd by (auto simp: idx)
    qed
  qed
  then show ?thesis by (simp add: matmul_def x y)
qed

lemma select0_first:
  assumes s: "shape x0 = [a, b, t, d]" and a: "0 < a" and w: "wf_tensor x0"
  shows "select0 x0 0 = Inr \<lparr>shape = [b, t, d],
                              elems = tabulate [b, t, d] (\<lambda>idx. entry x0 (0 # idx))\<rparr>"
proof -
  define n where "n = prod_list [b, t, d]"
  have len: "length (elems x0) = a * n" using w s by (simp add: wf_tensor_def n_def)
  have "n \<le> a * n" using a by simp
  then have ltake: "length (take n (elems x0)) = prod_list [b, t, d]"
    using len by (simp add: n_def)
  have "tabulate [b, t, d] (\<lambda>idx. entry x0 (0 # idx))
        = tabulate [b, t, d] (\<lambda>idx. take n (elems x0) ! ravel [b, t, d] idx)"
  proof (rule tabulate_cong)
    fix idx assume v: "valid_index [b, t, d] idx"
    have "ravel [b, t, d] idx < n" unfolding n_def by (rule ravel_less[OF v])
    then show "entry x0 (0 # idx) = take n (elems x0) ! ravel [b, t, d] idx"
      by (simp add: entry_def s)
  qed
  also have "\<dots> = take n (elems x0)" by (rule tabulate_ravel[OF ltake])
  finally have "take n (elems x0) = tabulate [b, t, d] (\<lambda>idx. entry x0 (0 # idx))" by simp
  then show ?thesis using a by (simp add: select0_def s n_def)
qed

lemma norm_dim2_tab:
  assumes x: "x = \<lparr>shape = [b, t, d], elems = tabulate [b, t, d] f\<rparr>"
  shows "norm_dim2 x =
           Inr \<lparr>shape = [b, t, 1],
                elems = tabulate [b, t, 1] (\<lambda>idx. sqrt (\<Sum>k\<leftarrow>[0..<d]. (f [idx ! 0, idx ! 1, k])\<^sup>2))\<rparr>"
proof -
  have "tabulate [b, t, 1] (\<lambda>idx. sqrt (\<Sum>k\<leftarrow>[0..<d]. (elems x ! ravel (shape x) (idx[2 := k]))\<^sup>2))
        = tabulate [b, t, 1] (\<lambda>idx. sqrt (\<Sum>k\<leftarrow>[0..<d]. (f [idx ! 0, idx ! 1, k])\<^sup>2))"
  proof (rule tabulate_cong)
    fix idx assume "valid_index [b, t, 1] idx"
    then obtain i j z where idx: "idx = [i, j, z]" and bd: "i < b" "j < t"
      unfolding valid_index3 by blast
    have "(\<Sum>k\<leftarrow>[0..<d]. (elems x ! ravel (shape x) (idx[2 := k]))\<^sup>2)
          = (\<Sum>k\<leftarrow>[0..<d]. (f [idx ! 0, idx ! 1, k])\<^sup>2)"
    proof (rule sum_list_upt_cong)
      fix k assume k: "k < d"
      have v: "valid_index [b, t, d] [i, j, k]" using bd k by (simp add: valid_index3)
      have u: "idx[2 := k] = [i, j, k]" by (simp add: idx numeral_2_eq_2)
      have "elems x ! ravel (shape x) [i, j, k] = f [i, j, k]"
        unfolding x tensor.simps by (rule nth_tabulate[OF v])
      then show "(elems x ! ravel (shape x) (idx[2 := k]))\<^sup>2 = (f [idx ! 0, idx ! 1, k])\<^sup>2"
        by (simp add: u) (simp add: idx)
    qed
    then show "sqrt (\<Sum>k\<leftarrow>[0..<d]. (elems x ! ravel (shape x) (idx[2 := k]))\<^sup>2)
               = sqrt (\<Sum>k\<leftarrow>[0..<d]. (f [idx ! 0, idx ! 1, k])\<^sup>2)"
      by simp
  qed
  then show ?thesis by (simp add: norm_dim2_def x)
qed

lemma l2_norm_token:
  "shape x0 = [a, b, t, d] \<Longrightarrow>
   l2_norm (token x0 i j) = sqrt (\<Sum>k\<leftarrow>[0..<d]. (entry x0 [0, i, j, k])\<^sup>2)"
  by (simp add: l2_norm_def token_def comp_def)

lemma dot_token:
  "shape x0 = [a, b, t, d] \<Longrightarrow>
   dot (token x0 i j) (token x0 i l) = (\<Sum>k\<leftarrow>[0..<d]. entry x0 [0, i, j, k] * entry x0 [0, i, l, k])"
  by (simp add: dot_def token_def zip_map_same comp_def)

lemma attn_cosine_sim_tab:
  assumes s: "shape x0 = [a, b, t, d]" and a: "0 < a" and w: "wf_tensor x0"
  shows "attn_cosine_sim x0 eps = Inr \<lparr>shape = [b, t, t], elems = tabulate [b, t, t] (cosine x0 eps)\<rparr>"
proof -
  define X where "X = (\<lambda>idx. entry x0 (0 # idx))"
  define x where "x = \<lparr>shape = [b, t, d], elems = tabulate [b, t, d] X\<rparr>"
  define N where "N = (\<lambda>idx. sqrt (\<Sum>k\<leftarrow>[0..<d]. (X [idx ! 0, idx ! 1, k])\<^sup>2))"
  define n1 where "n1 = \<lparr>shape = [b, t, 1], elems = tabulate [b, t, 1] N\<rparr>"
  define n1t where "n1t = \<lparr>shape = [b, 1, t], elems = tabulate [b, 1, t] (\<lambda>idx. N [idx ! 0, idx ! 2, idx ! 1])\<rparr>"
  define P where "P = (\<lambda>idx. \<Sum>j\<leftarrow>[0..<1]. N [idx ! 0, idx ! 1, j] * N [[idx ! 0, j, idx ! 2] ! 0, [idx ! 0, j, idx ! 2] ! 2, [idx ! 0, j, idx ! 2] ! 1])"
  define pr where "pr = \<lparr>shape = [b, t, t], elems = tabulate [b, t, t] P\<rparr>"
  define xt where "xt = \<lparr>shape = [b, d, t], elems = tabulate [b, d, t] (\<lambda>idx. X [idx ! 0, idx ! 2, idx ! 1])\<rparr>"
  define D where "D = (\<lambda>idx. \<Sum>j\<leftarrow>[0..<d]. X [idx ! 0, idx ! 1, j] * X [[idx ! 0, j, idx ! 2] ! 0, [idx ! 0, j, idx ! 2] ! 2, [idx ! 0, j, idx ! 2] ! 1])"
  define dots where "dots = \<lparr>shape = [b, t, t], elems = tabulate [b, t, t] D\<rparr>"
  have 1: "select0 x0 0 = Inr x" unfolding x_def X_def by (rule select0_first[OF s a w])
  have 2: "norm_dim2 x = Inr n1" unfolding n1_def N_def by (rule norm_dim2_tab[OF x_def])
  have 3: "permute n1 [0, 2, 1] = Inr n1t" unfolding n1t_def by (rule permute_021_tab[OF n1_def])
  have 4: "matmul n1 n1t = Inr pr" unfolding pr_def P_def by (rule matmul_tab[OF n1_def n1t_def])
  have 5: "permute x [0, 2, 1] = Inr xt" unfolding xt_def by (rule permute_021_tab[OF x_def])
  have 6: "matmul x xt = Inr dots" unfolding dots_def D_def by (rule matmul_tab[OF x_def xt_def])
  have 7: "clamp_min pr eps = \<lparr>shape = [b, t, t], elems = tabulate [b, t, t] (\<lambda>idx. max (P idx) eps)\<rparr>"
    by (simp add: clamp_min_def pr_def map_tabulate)
  have 8: "tdiv dots (clamp_min pr eps)
           = Inr \<lparr>shape = [b, t, t], elems = tabulate [b, t, t] (\<lambda>idx. D idx / max (P idx) eps)\<rparr>"
    unfolding 7 by (simp add: tdiv_def dots_def zip_tabulate)
  have 9: "tabulate [b, t, t] (\<lambda>idx. D idx / max (P idx) eps) = tabulate [b, t, t] (cosine x0 eps)"
  proof (rule tabulate_cong)
    fix idx assume "valid_index [b, t, t] idx"
    then obtain i j l where idx: "idx = [i, j, l]" unfolding valid_index3 by blast
    have d: "D idx = dot (token x0 i j) (token x0 i l)"
      by (simp add: D_def idx X_def dot_token[OF s])
    have p: "P idx = l2_norm (token x0 i j) * l2_norm (token x0 i l)"
      by (simp add: P_def idx N_def X_def l2_norm_token[OF s])
    show "D idx / max (P idx) eps = cosine x0 eps idx"
      unfolding d p by (simp add: cosine_def idx)
  qed
  show ?thesis
    unfolding attn_cosine_sim_def 1 ebind_Inr 2 3 4 Let_def 5 6 8 9 ..
qed

lemma attn_cosine_sim_entry:
  assumes s: "shape x0 = [a, b, t, d]" and a: "0 < a" and w: "wf_tensor x0"
    and i: "i < b" and j: "j < t" and l: "l < t"
  shows "\<exists>sim. attn_cosine_sim x0 eps = Inr sim \<and> shape sim = [b, t, t]
               \<and> entry sim [i, j, l] = cosine x0 eps [i, j, l]"
proof -
  have v: "valid_index [b, t, t] [i, j, l]" using i j l by (simp add: valid_index3)
  have "entry \<lparr>shape = [b, t, t], elems = tabulate [b, t, t] (cosine x0 eps)\<rparr> [i, j, l]
        = cosine x0 eps [i, j, l]"
    unfolding entry_def tensor.simps by (rule nth_tabulate[OF v])
  then show ?thesis
    unfolding attn_cosine_sim_tab[OF s a w] by simp
qed

lemma cosine_sym:
  assumes s: "shape x0 = [a, b, t, d]"
  shows "cosine x0 eps [i, j, l] = cosine x0 eps [i, l, j]"
  by (simp add: cosine_def dot_token[OF s] mult.commute)

lemma upt_0_2: "[0..<2] = [0, 1]"
  by (simp add: upt_rec_numeral eval_nat_numeral)

lemma sum_squares_nonneg: "0 \<le> (\<Sum>k\<leftarrow>ks. (f k :: real)\<^sup>2)"
  by (induction ks) auto

lemma cosine_diag:
  assumes s: "shape x0 = [a, b, t, d]" and e: "0 < eps"
    and n: "eps \<le> (l2_norm (token x0 i j))\<^sup>2"
  shows "cosine x0 eps [i, j, j] = 1"
proof -
  define q where "q = (\<Sum>k\<leftarrow>[0..<d]. (entry x0 [0, i, j, k])\<^sup>2)"
  have q0: "0 \<le> q" unfolding q_def by (rule sum_squares_nonneg)
  have nrm: "l2_norm (token x0 i j) = sqrt q" by (simp add: l2_norm_token[OF s] q_def)
  have dt: "dot (token x0 i j) (token x0 i j) = q"
    by (simp add: dot_token[OF s] q_def power2_eq_square)
  have sq: "sqrt q * sqrt q = q" using q0 by simp
  have qe: "eps \<le> q" using n q0 by (simp add: nrm)
  then have "max q eps = q" by simp
  moreover have "q \<noteq> 0" using qe e by simp
  ultimately show ?thesis using q0 by (simp add: cosine_def dt nrm sq)
qed

subsection \<open>Instrumentation\<close>

lemma init_hooks_data_fields [simp]:
  "layers_dict (init_hooks_data e) key = all_layers"
  "outputs_dict (init_hooks_data e) key = []"
  "hook_handlers (init_hooks_data e) = hook_handlers e"
  "model_hooks (init_hooks_data e) = model_hooks e"
  "model (init_hooks_data e) = model e"
  "mode (init_hooks_data e) = mode e"
  "patch_size (init_hooks_data e) = patch_size e"
  "forward_calls (init_hooks_data e) = forward_calls e"
  by (cases key; simp add: init_hooks_data_def KEY_LIST_def)+

lemma fold_remove1_prefix:
  "fold (\<lambda>h l. remove1 h l) xs (xs @ ys) = ys"
  by (induction xs) auto

lemma clear_hooks_aux:
  "fold (\<lambda>handler e'. e'\<lparr>model_hooks := remove1 handler (model_hooks e')\<rparr>) hs e
   = e\<lparr>model_hooks := fold (\<lambda>h l. remove1 h l) hs (model_hooks e)\<rparr>"
  by (induction hs arbitrary: e) auto

lemma clear_hooks_eq:
  "clear_hooks e = e\<lparr>model_hooks := fold (\<lambda>h l. remove1 h l) (hook_handlers e) (model_hooks e),
                     hook_handlers := []\<rparr>"
  by (simp add: clear_hooks_def clear_hooks_aux)

lemma clear_hooks_fields [simp]:
  "hook_handlers (clear_hooks e) = []"
  "layers_dict (clear_hooks e) = layers_dict e"
  "outputs_dict (clear_hooks e) = outputs_dict e"
  "model (clear_hooks e) = model e"
  "mode (clear_hooks e) = mode e"
  "patch_size (clear_hooks e) = patch_size e"
  "forward_calls (clear_hooks e) = forward_calls e"
  by (simp_all add: clear_hooks_eq)

lemma clear_hooks_consistent:
  "model_hooks e = hook_handlers e \<Longrightarrow> model_hooks (clear_hooks e) = []"
  using fold_remove1_prefix[of "hook_handlers e" "[]"] by (simp add: clear_hooks_eq)

lemma add_hook_fields [simp]:
  "layers_dict (add_hook h e) = layers_dict e"
  "outputs_dict (add_hook h e) = outputs_dict e"
  "model (add_hook h e) = model e"
  "mode (add_hook h e) = mode e"
  "patch_size (add_hook h e) = patch_size e"
  "forward_calls (add_hook h e) = forward_calls e"
  "model_hooks (add_hook h e) = model_hooks e @ [h]"
  "hook_handlers (add_hook h e) = hook_handlers e @ [h]"
  by (simp_all add: add_hook_def)

lemma register_block_fields [simp]:
  "layers_dict (register_block i e) = layers_dict e"
  "outputs_dict (register_block i e) = outputs_dict e"
  "model (register_block i e) = model e"
  "mode (register_block i e) = mode e"
  "patch_size (register_block i e) = patch_size e"
  "forward_calls (register_block i e) = forward_calls e"
  by (simp_all add: register_block_def Let_def)

lemma register_block_consistent:
  "model_hooks e = hook_handlers e \<Longrightarrow>
   model_hooks (register_block i e) = hook_handlers (register_block i e)"
  by (simp add: register_block_def Let_def)

lemma register_block_count:
  "count_list (model_hooks (register_block i e)) (j, key)
   = count_list (model_hooks e) (j, key) + (if j = i \<and> i \<in> set (layers_dict e key) then 1 else 0)"
  by (cases key) (simp_all add: register_block_def Let_def)

lemma fold_register_block_fields [simp]:
  "layers_dict (fold register_block is e) = layers_dict e"
  "outputs_dict (fold register_block is e) = outputs_dict e"
  "model (fold register_block is e) = model e"
  "mode (fold register_block is e) = mode e"
  "patch_size (fold register_block is e) = patch_size e"
  "forward_calls (fold register_block is e) = forward_calls e"
  by (induction "is" arbitrary: e; simp)+

lemma fold_register_block_consistent:
  "model_hooks e = hook_handlers e \<Longrightarrow>
   model_hooks (fold register_block is e) = hook_handlers (fold register_block is e)"
  by (induction "is" arbitrary: e) (simp_all add: register_block_consistent)

lemma fold_register_block_count:
  "count_list (model_hooks (fold register_block [0..<n] e)) (j, key)
   = count_list (model_hooks e) (j, key) + (if j < n \<and> j \<in> set (layers_dict e key) then 1 else 0)"
proof (induction n)
  case 0
  then show ?case by simp
next
  case (Suc n)
  show ?case
    by (simp add: register_block_count Suc.IH) (auto simp: less_Suc_eq)
qed

lemma register_hooks_fields [simp]:
  "layers_dict (register_hooks e) = layers_dict e"
  "outputs_dict (register_hooks e) = outputs_dict e"
  "model (register_hooks e) = model e"
  "mode (register_hooks e) = mode e"
  "patch_size (register_hooks e) = patch_size e"
  "forward_calls (register_hooks e) = forward_calls e"
  by (simp_all add: register_hooks_def)

lemma register_hooks_consistent:
  "model_hooks e = hook_handlers e \<Longrightarrow>
   model_hooks (register_hooks e) = hook_handlers (register_hooks e)"
  by (simp add: register_hooks_def fold_register_block_consistent)

lemma register_hooks_count:
  "count_list (model_hooks (register_hooks e)) (j, key)
   = count_list (model_hooks e) (j, key)
     + (if j < blocks (model e) \<and> j \<in> set (layers_dict e key) then 1 else 0)"
  by (simp add: register_hooks_def fold_register_block_count)

lemma run_stage_fields [simp]:
  "layers_dict (run_stage st e) = layers_dict e"
  "hook_handlers (run_stage st e) = hook_handlers e"
  "model_hooks (run_stage st e) = model_hooks e"
  "model (run_stage st e) = model e"
  "mode (run_stage st e) = mode e"
  "patch_size (run_stage st e) = patch_size e"
  "forward_calls (run_stage st e) = forward_calls e"
  by (simp_all add: run_stage_def)

lemma fold_run_stage_fields [simp]:
  "layers_dict (fold run_stage sts e) = layers_dict e"
  "hook_handlers (fold run_stage sts e) = hook_handlers e"
  "model_hooks (fold run_stage sts e) = model_hooks e"
  "model (fold run_stage sts e) = model e"
  "mode (fold run_stage sts e) = mode e"
  "patch_size (fold run_stage sts e) = patch_size e"
  "forward_calls (fold run_stage sts e) = forward_calls e"
  by (induction sts arbitrary: e; simp)+

lemma fold_run_stage_outputs:
  "outputs_dict (fold run_stage sts e) key
   = outputs_dict e key
     @ concat (map (\<lambda>st. replicate (count_list (model_hooks e) (fst st, key)) (captured key (snd st))) sts)"
proof (induction sts arbitrary: e)
  case Nil
  then show ?case by simp
next
  case (Cons st sts)
  show ?case by (simp add: Cons.IH) (simp add: run_stage_def)
qed

lemma enumerate_take:
  "concat (map (\<lambda>st. replicate (if fst st < m then 1 else 0) (f (snd st))) (zip [0..<length xs] xs))
   = map f (take m xs)"
proof (induction xs rule: rev_induct)
  case Nil
  then show ?case by simp
next
  case (snoc x xs)
  have z: "zip [0..<length (xs @ [x])] (xs @ [x]) = zip [0..<length xs] xs @ [(length xs, x)]"
    by simp
  show ?case unfolding z by (simp add: snoc.IH)
qed

lemma extraction_as_capture_run:
  "get_feature_from_input = capture_run BLOCK_KEY"
  "get_qkv_feature_from_input = capture_run QKV_KEY"
  "get_attn_feature_from_input = capture_run ATTN_KEY"
  by (intro ext; simp add: get_feature_from_input_def get_qkv_feature_from_input_def
      get_attn_feature_from_input_def capture_run_def Let_def split: prod.splits sum.splits)+

lemma extraction_ops_cases:
  "op \<in> set extraction_ops \<Longrightarrow> \<exists>key. op = capture_run key"
  by (auto simp: extraction_ops_def extraction_as_capture_run)

lemma run_model_eq:
  "run_model e img =
     (case snd (forward (model e) img) of None \<Rightarrow> Inr () | Some x \<Rightarrow> Inl x,
      fold run_stage (stages e img) (e\<lparr>forward_calls := forward_calls e + 1\<rparr>))"
  by (simp add: run_model_def stages_def split: prod.splits)

lemma capture_run_fails:
  assumes "snd (forward (model e) img) = Some x"
  shows "fst (capture_run key e img) = Inl x"
  using assms by (simp add: capture_run_def run_model_eq)

lemma capture_run_completes:
  assumes "snd (forward (model e) img) = None"
  shows "capture_run key e img =
           (Inr (outputs_dict e key @
                 concat (map (\<lambda>st. replicate (count_list (model_hooks (register_hooks e)) (fst st, key))
                                      (captured key (snd st))) (stages e img))),
            init_hooks_data (clear_hooks
              (fold run_stage (stages e img)
                 ((register_hooks e)\<lparr>forward_calls := forward_calls e + 1\<rparr>))))"
  using assms
  by (simp add: capture_run_def run_model_eq fold_run_stage_outputs stages_def)

lemma capture_run_cleared:
  assumes "snd (forward (model e) img) = None"
  shows "is_cleared (snd (capture_run key e img))"
    and "model (snd (capture_run key e img)) = model e"
    and "mode (snd (capture_run key e img)) = mode e"
    and "patch_size (snd (capture_run key e img)) = patch_size e"
    and "forward_calls (snd (capture_run key e img)) = forward_calls e + 1"
    and "model_hooks e = hook_handlers e \<Longrightarrow> model_hooks (snd (capture_run key e img)) = []"
proof -
  let ?e1 = "fold run_stage (stages e img) ((register_hooks e)\<lparr>forward_calls := forward_calls e + 1\<rparr>)"
  have s: "snd (capture_run key e img) = init_hooks_data (clear_hooks ?e1)"
    by (simp add: capture_run_completes[OF assms])
  show "is_cleared (snd (capture_run key e img))" by (simp add: s is_cleared_def)
  show "model (snd (capture_run key e img)) = model e" by (simp add: s)
  show "mode (snd (capture_run key e img)) = mode e" by (simp add: s)
  show "patch_size (snd (capture_run key e img)) = patch_size e" by (simp add: s)
  show "forward_calls (snd (capture_run key e img)) = forward_calls e + 1" by (simp add: s)
  show "model_hooks (snd (capture_run key e img)) = []" if c: "model_hooks e = hook_handlers e"
  proof -
    have "model_hooks ?e1 = hook_handlers ?e1"
      using register_hooks_consistent[OF c] by simp
    then show ?thesis by (simp add: s clear_hooks_consistent)
  qed
qed

lemma is_cleared_dicts:
  "is_cleared e \<Longrightarrow> layers_dict e key = all_layers \<and> outputs_dict e key = []"
  by (cases key) (simp_all add: is_cleared_def)

lemma enumerate_take_min:
  "concat (map (\<lambda>st. replicate (if fst st < a \<and> fst st < b then 1 else 0) (f (snd st)))
             (zip [0..<length xs] xs))
   = map f (take (min a b) xs)"
  using enumerate_take[of "min a b" f xs] by simp

lemma capture_run_reset:
  assumes r: "is_reset e"
  shows "fst (capture_run key e img) =
           (case snd (forward (model e) img) of
              Some x \<Rightarrow> Inl x
            | None \<Rightarrow> Inr (map (captured key) (take (min (blocks (model e)) 12) (fst (forward (model e) img)))))"
proof (cases "snd (forward (model e) img)")
  case (Some x)
  then show ?thesis by (simp add: capture_run_fails)
next
  case None
  have d: "layers_dict e key = all_layers" "outputs_dict e key = []"
    using r is_cleared_dicts[of e key] by (simp_all add: is_reset_def)
  have h: "model_hooks e = []" using r by (simp add: is_reset_def)
  have cnt: "\<And>j. count_list (model_hooks (register_hooks e)) (j, key)
              = (if j < min (blocks (model e)) 12 then 1 else 0)"
    by (simp add: register_hooks_count h d all_layers_def) presburger
  show ?thesis
    by (simp add: capture_run_completes[OF None] d cnt None stages_def enumerate_take_min)
qed

lemma fresh_extractor_reset: "is_reset (fresh_extractor md ps mdl)"
  by (simp add: is_reset_def is_cleared_def fresh_extractor_def)

lemma fresh_extractor_fields [simp]:
  "model (fresh_extractor md ps mdl) = mdl"
  "mode (fresh_extractor md ps mdl) = md"
  "patch_size (fresh_extractor md ps mdl) = ps"
  by (simp_all add: fresh_extractor_def)

lemma capture_run_reset_same:
  assumes "is_reset e1" "is_reset e2" "model e1 = model e2"
  shows "fst (capture_run key e1 img) = fst (capture_run key e2 img)"
  unfolding capture_run_reset[OF assms(1)] capture_run_reset[OF assms(2)] assms(3) ..

subsection \<open>Slicing\<close>

lemma and_then_assoc:
  "and_then (and_then r f) g = and_then r (\<lambda>v. ebind (f v) g)"
  by (simp add: and_then_def ebind_assoc)

lemma valid_index2:
  "valid_index [a, b] idx \<longleftrightarrow> (\<exists>i j. idx = [i, j] \<and> i < a \<and> j < b)"
  by (auto simp: valid_index_def list_all2_Cons2)

lemma row_bound:
  assumes "i < b" and "0 < n"
  shows "i * (n * d) + d \<le> b * (n * (d::nat))"
proof -
  have 1: "d \<le> n * d" using assms(2) by simp
  have 2: "Suc i * (n * d) \<le> b * (n * d)"
    using assms(1) by (intro mult_le_mono1) simp
  have "i * (n * d) + d \<le> i * (n * d) + n * d" using 1 by (rule add_left_mono)
  also have "\<dots> = Suc i * (n * d)" by (simp only: mult_Suc add.commute)
  finally show ?thesis using 2 by (rule order_trans)
qed

lemma slice_col0_entries:
  assumes s: "shape tokens = [b, n, d]" and n: "0 < n" and w: "wf_tensor tokens"
  shows "\<exists>cls. slice_col0 tokens = Inr cls \<and> shape cls = [b, d]
               \<and> (\<forall>i<b. \<forall>k<d. entry cls [i, k] = entry tokens [i, 0, k])"
proof -
  define es where "es = elems tokens"
  define xss where "xss = map (\<lambda>i. take d (drop (i * (n * d)) es)) [0..<b]"
  define cls where "cls = \<lparr>shape = [b, d], elems = concat xss\<rparr>"
  have len: "length es = b * (n * d)" using w s by (simp add: wf_tensor_def es_def)
  have r: "slice_col0 tokens = Inr cls"
    using n by (simp add: slice_col0_def s cls_def xss_def es_def)
  have row: "length (take d (drop (i * (n * d)) es)) = d" if "i < b" for i
  proof -
    have "i * (n * d) + d \<le> length es" unfolding len by (rule row_bound[OF that n])
    then have "d \<le> length es - i * (n * d)" by linarith
    then show ?thesis by (simp only: length_take length_drop min_absorb2)
  qed
  have uni: "\<And>x. x \<in> set xss \<Longrightarrow> length x = d" using row by (auto simp: xss_def)
  have ent: "entry cls [i, k] = entry tokens [i, 0, k]" if i: "i < b" and k: "k < d" for i k
  proof -
    have "entry cls [i, k] = concat xss ! (i * d + k)" by (simp add: entry_def cls_def)
    also have "\<dots> = xss ! i ! k"
    proof (rule nth_concat_uniform)
      show "\<And>x. x \<in> set xss \<Longrightarrow> length x = d" by (rule uni)
      show "i < length xss" using i by (simp add: xss_def)
      show "k < d" by (rule k)
    qed
    also have "\<dots> = take d (drop (i * (n * d)) es) ! k" using i by (simp add: xss_def)
    also have "\<dots> = es ! (i * (n * d) + k)"
    proof -
      have "length (take d (drop (i * (n * d)) es)) = d" by (rule row[OF i])
      then have "d \<le> length es - i * (n * d)" by simp
      then have "i * (n * d) + k \<le> length es" using k by linarith
      then show ?thesis using k by simp
    qed
    also have "\<dots> = entry tokens [i, 0, k]" by (simp add: entry_def s es_def)
    finally show ?thesis .
  qed
  show ?thesis using r ent by (auto simp: cls_def)
qed

subsection \<open>Sample objects\<close>

lemma sample_extractor_fields [simp]:
  "mode sample_extractor = ''base''"
  "patch_size sample_extractor = 16"
  "model sample_extractor = sample_model"
  "model_hooks sample_extractor = []"
  "hook_handlers sample_extractor = []"
  "forward_calls sample_extractor = 0"
  by (simp_all add: sample_extractor_def fresh_extractor_def init_hooks_data_def)

lemma snd_and_then [simp]: "snd (and_then r f) = snd r"
  by (simp add: and_then_def)

lemma fst_and_then [simp]: "fst (and_then r f) = ebind (fst r) f"
  by (simp add: and_then_def)

lemma sample_forward [simp]:
  "forward sample_model img =
     (replicate 12 (sample_stage (1 + (shape img ! 2 div 16) * (shape img ! 3 div 16))), None)"
  "blocks sample_model = 12"
  by (simp_all add: sample_model_def)

lemma sample_extractor_reset: "is_reset sample_extractor"
  unfolding sample_extractor_def by (rule fresh_extractor_reset)

lemma py_index_replicate:
  "0 \<le> i \<Longrightarrow> i < int n \<Longrightarrow> py_index (replicate n x) i = Inr x"
  by (simp add: py_index_def)

lemma sample_capture:
  "fst (capture_run key sample_extractor img)
   = Inr (replicate 12 (captured key (sample_stage (1 + (shape img ! 2 div 16) * (shape img ! 3 div 16)))))"
  by (simp add: capture_run_reset[OF sample_extractor_reset])

lemma sample_p_32: "shape image_32 ! 2 div 16 * (shape image_32 ! 3 div 16) = 4"
  by (simp add: image_32_def const_tensor_def)


lemma shape_const_tensor [simp]: "shape (const_tensor shp c) = shp"
  by (simp add: const_tensor_def)

lemma wf_const_tensor [simp]: "wf_tensor (const_tensor shp c)"
  by (simp add: const_tensor_def wf_tensor_def)

lemma select0_const_tensor:
  assumes "i < n"
  shows "select0 (const_tensor (n # ns) c) i = Inr (const_tensor ns c)"
proof -
  have "Suc i * prod_list ns \<le> n * prod_list ns" using assms by (intro mult_le_mono1) simp
  then have "prod_list ns \<le> n * prod_list ns - i * prod_list ns" by simp
  then have "min (prod_list ns) (n * prod_list ns - i * prod_list ns) = prod_list ns" by simp
  then show ?thesis using assms by (simp add: select0_def const_tensor_def)
qed

lemma concat_replicate_rows:
  "concat (map (\<lambda>i. replicate d c) [0..<b]) = replicate (b * d) c"
  by (induction b) (simp_all add: replicate_add [symmetric])

lemma slice_col0_const_tensor:
  assumes n: "0 < n"
  shows "slice_col0 (const_tensor [b, n, d] c) = Inr (const_tensor [b, d] c)"
proof -
  have row: "take d (drop (i * (n * d)) (replicate (b * (n * d)) c)) = replicate d c" if "i < b" for i
  proof -
    have "i * (n * d) + d \<le> b * (n * d)" by (rule row_bound[OF that n])
    then have "d \<le> b * (n * d) - i * (n * d)" by linarith
    then have "min d (b * (n * d) - i * (n * d)) = d" by simp
    then show ?thesis by simp
  qed
  have "map (\<lambda>i. take d (drop (i * (n * d)) (replicate (b * (n * d)) c))) [0..<b]
        = map (\<lambda>i. replicate d c) [0..<b]"
    by (rule map_cong[OF refl]) (rule row, simp)
  then have "concat (map (\<lambda>i. take d (drop (i * (n * d)) (replicate (b * (n * d)) c))) [0..<b])
        = replicate (b * d) c"
    by (simp only: concat_replicate_rows)
  then show ?thesis using n by (simp add: slice_col0_def const_tensor_def)
qed

lemma sample_block_feature_32:
  "fst (get_feature_from_input sample_extractor image_32)
   = Inr (replicate 12 (const_tensor [1, 5, 768] 1))"
  by (simp add: extraction_as_capture_run sample_capture sample_p_32 captured_def sample_stage_def)

lemma sample_tokens_32:
  "fst (get_tokens_from_input sample_extractor image_32 0) = Inr (const_tensor [1, 5, 768] 1)"
  by (simp add: get_tokens_from_input_def sample_block_feature_32 py_index_replicate)

subsection \<open>Attention weights and key extraction\<close>


lemma reshape_nonneg_shape:
  assumes r: "reshape t dims = Inr r" and nn: "\<And>d. d \<in> set dims \<Longrightarrow> 0 \<le> d"
  shows "shape r = map nat dims"
proof -
  have f1: "filter (\<lambda>d. d \<noteq> -1) dims = dims"
    using nn by (induction dims) fastforce+
  have f2: "filter (\<lambda>d. d = -1) dims = []"
    using nn by (induction dims) fastforce+
  have f3: "\<not> (\<exists>d \<in> set dims. d < -1)" using nn by fastforce
  show ?thesis
    using r f3 unfolding reshape_def Let_def f1 f2 by (auto split: if_splits)
qed

lemma patch_product_nonneg:
  assumes "0 \<le> (a::int)" and "0 \<le> b"
  shows "0 \<le> (a div p) * (b div p)"
proof (cases "0 < p")
  case True
  then have "0 \<le> a div p" "0 \<le> b div p" using assms by (simp_all add: pos_imp_zdiv_nonneg_iff)
  then show ?thesis by simp
next
  case False
  show ?thesis
  proof (cases "p = 0")
    case True
    then show ?thesis by simp
  next
    case False
    with \<open>\<not> 0 < p\<close> have "p < 0" by simp
    then have "a div p \<le> 0" "b div p \<le> 0" using assms by (simp_all add: div_nonneg_neg_le0)
    then show ?thesis by (rule mult_nonpos_nonpos)
  qed
qed

lemma py_floordiv_if:
  "py_floordiv a b = (if b = 0 then Inl ZeroDivisionError else Inr (a div b))"
  by (simp add: py_floordiv_def)

lemma get_patch_num_four:
  "get_patch_num e [b, c, h, w] =
     (if patch_size e = 0 then Inl ZeroDivisionError
      else Inr (1 + (h div patch_size e) * (w div patch_size e)))"
  by (simp add: get_patch_num_def get_height_patch_num_def get_width_patch_num_def
      get_patch_size_def py_floordiv_if)

lemma get_patch_num_not_four:
  "length shp \<noteq> 4 \<Longrightarrow> get_patch_num e shp = Inl ValueError"
  by (auto simp: get_patch_num_def get_height_patch_num_def split: list.splits)

lemma get_patch_num_image:
  assumes "get_patch_num e (map int shp) = Inr pn"
  shows "1 \<le> pn"
proof -
  have "length shp = 4" using assms get_patch_num_not_four[of "map int shp" e] by auto
  then obtain b c h w where shp: "shp = [b, c, h, w]"
    by (auto simp: length_Suc_conv eval_nat_numeral)
  have "pn = 1 + (int h div patch_size e) * (int w div patch_size e)"
    using assms by (simp add: shp get_patch_num_four split: if_splits)
  then show ?thesis using patch_product_nonneg[of "int h" "int w" "patch_size e"] by simp
qed

lemma get_patch_num_cong:
  assumes "patch_size e1 = patch_size e"
  shows "get_patch_num e1 shp = get_patch_num e shp"
proof (cases "length shp = 4")
  case True
  then obtain b c h w where shp: "shp = [b, c, h, w]"
    by (auto simp: length_Suc_conv eval_nat_numeral)
  show ?thesis by (simp add: shp get_patch_num_four assms)
next
  case False
  then show ?thesis by (simp add: get_patch_num_not_four)
qed

lemma get_keys_from_qkv_cong:
  assumes "patch_size e1 = patch_size e" and "mode e1 = mode e"
  shows "get_keys_from_qkv e1 qkv shp = get_keys_from_qkv e qkv shp"
proof -
  have "get_head_num e1 = get_head_num e" "get_embedding_dim e1 = get_embedding_dim e"
    using assms(2) by (simp_all add: get_head_num_def get_embedding_dim_def)
  then have "split_qkv e1 qkv shp = split_qkv e qkv shp"
    unfolding split_qkv_def get_patch_num_cong[OF assms(1)] by simp
  then show ?thesis by (simp add: get_keys_from_qkv_def)
qed

lemma head_constants:
  "get_embedding_dim e div get_head_num e = 64" "0 \<le> get_head_num e"
  by (simp_all add: get_head_num_def get_embedding_dim_def)

lemma split_qkv_shape:
  assumes sp: "split_qkv e qkv shp = Inr p" and gp: "get_patch_num e shp = Inr pn" and pn: "0 \<le> pn"
  shows "shape p = [3, nat (get_head_num e), nat pn, 64]"
proof -
  from sp obtain r where r: "reshape qkv [pn, 3, get_head_num e, 64] = Inr r"
    and p: "permute r [1, 2, 0, 3] = Inr p"
    by (auto simp: split_qkv_def gp Let_def head_constants ebind_def split: sum.splits)
  have "shape r = map nat [pn, 3, get_head_num e, 64]"
    using r by (rule reshape_nonneg_shape) (use pn head_constants in auto)
  then have rs: "shape r = [nat pn, 3, nat (get_head_num e), 64]" by simp
  show ?thesis using p unfolding permute_1203[OF rs] by auto
qed

lemma get_keys_from_qkv_shape:
  assumes k: "get_keys_from_qkv e qkv shp = Inr keys" and gp: "get_patch_num e shp = Inr pn"
    and pn: "0 \<le> pn"
  shows "shape keys = [nat (get_head_num e), nat pn, 64]"
proof -
  from k obtain p where sp: "split_qkv e qkv shp = Inr p" and s: "select0 p 1 = Inr keys"
    by (auto simp: get_keys_from_qkv_def ebind_def split: sum.splits)
  have "shape p = [3, nat (get_head_num e), nat pn, 64]" by (rule split_qkv_shape[OF sp gp pn])
  then show ?thesis using s by (auto simp: select0_def)
qed

lemma capture_run_Inr:
  assumes "fst (capture_run key e img) = Inr feature"
  shows "snd (forward (model e) img) = None"
proof (cases "snd (forward (model e) img)")
  case None
  then show ?thesis .
next
  case (Some x)
  then have "fst (capture_run key e img) = Inl x" by (rule capture_run_fails)
  with assms show ?thesis by simp
qed

lemma get_keys_from_input_Inr:
  assumes "get_keys_from_input e img l = (Inr keys, e1)"
  shows "snd (forward (model e) img) = None"
    and "e1 = snd (capture_run QKV_KEY e img)"
    and "\<exists>qkv. get_keys_from_qkv e qkv (map int (shape img)) = Inr keys"
proof -
  have e1: "e1 = snd (capture_run QKV_KEY e img)"
    and b: "ebind (fst (capture_run QKV_KEY e img))
              (\<lambda>feature. ebind (py_index feature l)
                 (\<lambda>qkv. get_keys_from_qkv e qkv (map int (shape img)))) = Inr keys"
    using assms by (simp_all add: get_keys_from_input_def and_then_def extraction_as_capture_run)
  from b obtain feature where f: "fst (capture_run QKV_KEY e img) = Inr feature"
    and b2: "ebind (py_index feature l) (\<lambda>qkv. get_keys_from_qkv e qkv (map int (shape img))) = Inr keys"
    by (auto simp: ebind_def split: sum.splits)
  show "snd (forward (model e) img) = None" by (rule capture_run_Inr[OF f])
  show "e1 = snd (capture_run QKV_KEY e img)" by (rule e1)
  show "\<exists>qkv. get_keys_from_qkv e qkv (map int (shape img)) = Inr keys"
    using b2 by (auto simp: ebind_def split: sum.splits)
qed

lemma cross_sim_mismatch:
  assumes k1: "get_keys_from_input e source_img l = (Inr src_keys, e1)"
    and k2: "get_keys_from_input e1 target_img l = (Inr tgt_keys, e2)"
    and d: "get_patch_num e (map int (shape source_img)) \<noteq> get_patch_num e (map int (shape target_img))"
  shows "get_keys_cross_sim_from_input e source_img target_img l = (Inl AssertionError, e2)
       \<and> shape src_keys \<noteq> shape tgt_keys
       \<and> forward_calls e2 = forward_calls e + 2"
proof -
  note a1 = get_keys_from_input_Inr[OF k1]
  note a2 = get_keys_from_input_Inr[OF k2]
  have ps: "patch_size e1 = patch_size e" and md: "mode e1 = mode e"
    and fc1: "forward_calls e1 = forward_calls e + 1"
    unfolding a1(2) by (simp_all add: capture_run_cleared[OF a1(1)])
  have fc2: "forward_calls e2 = forward_calls e1 + 1"
    unfolding a2(2) by (simp add: capture_run_cleared[OF a2(1)])
  obtain q1 where q1: "get_keys_from_qkv e q1 (map int (shape source_img)) = Inr src_keys"
    using a1(3) by blast
  obtain q2 where q2: "get_keys_from_qkv e q2 (map int (shape target_img)) = Inr tgt_keys"
    using a2(3) get_keys_from_qkv_cong[OF ps md] by auto
  obtain p1 where p1: "get_patch_num e (map int (shape source_img)) = Inr p1"
    using q1 by (auto simp: get_keys_from_qkv_def split_qkv_def ebind_def split: sum.splits)
  obtain p2 where p2: "get_patch_num e (map int (shape target_img)) = Inr p2"
    using q2 by (auto simp: get_keys_from_qkv_def split_qkv_def ebind_def split: sum.splits)
  have g1: "1 \<le> p1" by (rule get_patch_num_image[OF p1])
  have g2: "1 \<le> p2" by (rule get_patch_num_image[OF p2])
  have s1: "shape src_keys = [nat (get_head_num e), nat p1, 64]"
    using get_keys_from_qkv_shape[OF q1 p1] g1 by simp
  have s2: "shape tgt_keys = [nat (get_head_num e), nat p2, 64]"
    using get_keys_from_qkv_shape[OF q2 p2] g2 by simp
  have "p1 \<noteq> p2" using d p1 p2 by simp
  then have ne: "shape src_keys \<noteq> shape tgt_keys" using s1 s2 g1 g2 by simp
  have "get_keys_cross_sim_from_input e source_img target_img l = (Inl AssertionError, e2)"
    by (simp add: get_keys_cross_sim_from_input_def k1 k2 ne)
  then show ?thesis using ne fc1 fc2 by simp
qed

lemma elems_const_tensor [simp]: "elems (const_tensor shp c) = replicate (prod_list shp) c"
  by (simp add: const_tensor_def)

lemma tabulate_const: "tabulate shp (\<lambda>idx. c) = replicate (prod_list shp) c"
proof (induction shp)
  case Nil
  then show ?case by (simp add: tabulate.simps)
next
  case (Cons n ns)
  show ?case by (simp add: tabulate.simps Cons.IH concat_replicate_rows)
qed

lemma reshape_const_tensor:
  assumes nn: "\<And>d. d \<in> set dims \<Longrightarrow> 0 \<le> d"
    and sz: "prod_list dims = int (prod_list shp)"
  shows "reshape (const_tensor shp c) dims = Inr (const_tensor (map nat dims) c)"
proof -
  have "reshape (const_tensor shp c) dims
        = Inr \<lparr>shape = map nat dims, elems = elems (const_tensor shp c)\<rparr>"
    by (rule reshape_exact) (use nn sz in auto)
  moreover have "prod_list (map nat dims) = prod_list shp"
  proof -
    have "int (prod_list (map nat dims)) = prod_list dims"
      using nn by (induction dims) auto
    then show ?thesis using sz by simp
  qed
  ultimately show ?thesis by (simp add: const_tensor_def)
qed

lemma permute_1203_const_tensor:
  "permute (const_tensor [a, b, c, d] v) [1, 2, 0, 3] = Inr (const_tensor [b, c, a, d] v)"
proof -
  have "tabulate [b, c, a, d]
          (\<lambda>idx. elems (const_tensor [a, b, c, d] v) ! ravel [a, b, c, d] [idx ! 2, idx ! 0, idx ! 1, idx ! 3])
        = tabulate [b, c, a, d] (\<lambda>idx. v)"
  proof (rule tabulate_cong)
    fix idx assume "valid_index [b, c, a, d] idx"
    then obtain i j k l where idx: "idx = [i, j, k, l]" and bd: "i < b" "j < c" "k < a" "l < d"
      unfolding valid_index4 by blast
    have v: "valid_index [a, b, c, d] [k, i, j, l]" using bd by (simp add: valid_index4)
    have "ravel [a, b, c, d] [k, i, j, l] < prod_list [a, b, c, d]" by (rule ravel_less[OF v])
    then have "replicate (prod_list [a, b, c, d]) v ! ravel [a, b, c, d] [k, i, j, l] = v"
      by (rule nth_replicate)
    then show "elems (const_tensor [a, b, c, d] v) ! ravel [a, b, c, d] [idx ! 2, idx ! 0, idx ! 1, idx ! 3] = v"
      by (simp add: idx)
  qed
  also have "\<dots> = replicate (prod_list [b, c, a, d]) v" by (rule tabulate_const)
  finally show ?thesis
    using permute_1203[of "const_tensor [a, b, c, d] v" a b c d] by (simp add: const_tensor_def)
qed

lemma get_keys_from_qkv_const_tensor:
  assumes ps: "patch_size e = 16" and md: "mode e = ''base''"
    and sz: "prod_list shp = (1 + (h div 16) * (w div 16)) * 2304"
  shows "get_keys_from_qkv e (const_tensor shp 1) [int b, int c, int h, int w]
         = Inr (const_tensor [12, 1 + (h div 16) * (w div 16), 64] 1)"
proof -
  define p where "p = 1 + (h div 16) * (w div 16)"
  have gp: "get_patch_num e [int b, int c, int h, int w] = Inr (int p)"
    by (simp add: get_patch_num_four ps p_def zdiv_int)
  have hn: "get_head_num e = 12" and ed: "get_embedding_dim e = 768"
    by (simp_all add: get_head_num_def get_embedding_dim_def md)
  have rs: "reshape (const_tensor shp 1) [int p, 3, 12, 64] = Inr (const_tensor [p, 3, 12, 64] (1::real))"
  proof -
    have "reshape (const_tensor shp 1) [int p, 3, 12, 64]
          = Inr (const_tensor (map nat [int p, 3, 12, 64]) (1::real))"
      by (rule reshape_const_tensor) (auto simp: sz p_def)
    then show ?thesis by simp
  qed
  have sp: "split_qkv e (const_tensor shp 1) [int b, int c, int h, int w]
            = Inr (const_tensor [3, 12, p, 64] 1)"
    unfolding split_qkv_def gp hn ed Let_def
    by (simp only: ebind_Inr) (simp add: rs permute_1203_const_tensor del: One_nat_def)
  show ?thesis
    unfolding get_keys_from_qkv_def sp ebind_Inr p_def[symmetric]
    by (rule select0_const_tensor) simp
qed

lemma sample_capture_reset:
  assumes "is_reset e" and "model e = sample_model"
  shows "fst (capture_run key e img)
         = Inr (replicate 12 (captured key (sample_stage (1 + (shape img ! 2 div 16) * (shape img ! 3 div 16)))))"
  by (simp add: capture_run_reset[OF assms(1)] assms(2))

lemma sample_get_keys:
  assumes r: "is_reset e" and m: "model e = sample_model"
    and ps: "patch_size e = 16" and md: "mode e = ''base''"
    and shp: "shape img = [b, c, h, w]"
  shows "get_keys_from_input e img 0
         = (Inr (const_tensor [12, 1 + (h div 16) * (w div 16), 64] 1), snd (capture_run QKV_KEY e img))"
proof -
  define p where "p = 1 + (h div 16) * (w div 16)"
  have f: "fst (capture_run QKV_KEY e img) = Inr (replicate 12 (const_tensor [1, p, 2304] 1))"
    by (simp add: sample_capture_reset[OF r m] shp captured_def sample_stage_def p_def)
  have k: "get_keys_from_qkv e (const_tensor [1, p, 2304] 1) (map int (shape img))
           = Inr (const_tensor [12, p, 64] 1)"
    unfolding shp p_def by (simp add: get_keys_from_qkv_const_tensor[OF ps md])
  have pi: "py_index (replicate 12 (const_tensor [1, p, 2304] (1::real))) 0
            = Inr (const_tensor [1, p, 2304] 1)"
    by (rule py_index_replicate) simp_all
  have b: "ebind (fst (capture_run QKV_KEY e img))
             (\<lambda>feature. ebind (py_index feature 0)
                (\<lambda>qkv_features. get_keys_from_qkv e qkv_features (map int (shape img))))
           = Inr (const_tensor [12, p, 64] 1)"
    unfolding f ebind_Inr pi k ..
  show ?thesis
    unfolding get_keys_from_input_def and_then_def extraction_as_capture_run(2) b p_def ..
qed

lemma shape_image_32: "shape image_32 = [1, 3, 32, 32]"
  by (simp add: image_32_def)

lemma shape_image_16: "shape image_16 = [1, 3, 16, 16]"
  by (simp add: image_16_def)

lemma sample_after_first:
  "is_reset (snd (capture_run key sample_extractor img))"
  "model (snd (capture_run key sample_extractor img)) = sample_model"
  "patch_size (snd (capture_run key sample_extractor img)) = 16"
  "mode (snd (capture_run key sample_extractor img)) = ''base''"
  "forward_calls (snd (capture_run key sample_extractor img)) = 1"
proof -
  have c: "snd (forward (model sample_extractor) img) = None" by simp
  have h: "model_hooks sample_extractor = hook_handlers sample_extractor" by simp
  show "is_reset (snd (capture_run key sample_extractor img))"
    using capture_run_cleared(1)[OF c] capture_run_cleared(6)[OF c h] by (simp add: is_reset_def)
  show "model (snd (capture_run key sample_extractor img)) = sample_model"
    by (simp add: capture_run_cleared(2)[OF c])
  show "patch_size (snd (capture_run key sample_extractor img)) = 16"
    by (simp add: capture_run_cleared(4)[OF c])
  show "mode (snd (capture_run key sample_extractor img)) = ''base''"
    by (simp add: capture_run_cleared(3)[OF c])
  show "forward_calls (snd (capture_run key sample_extractor img)) = 1"
    by (simp add: capture_run_cleared(5)[OF c])
qed

lemma sample_keys_32:
  "get_keys_from_input sample_extractor image_32 0
   = (Inr (const_tensor [12, 5, 64] 1), snd (capture_run QKV_KEY sample_extractor image_32))"
  using sample_get_keys[OF sample_extractor_reset _ _ _ shape_image_32] by simp

lemma sample_keys_16_after_32:
  "get_keys_from_input (snd (capture_run QKV_KEY sample_extractor image_32)) image_16 0
   = (Inr (const_tensor [12, 2, 64] 1),
      snd (capture_run QKV_KEY (snd (capture_run QKV_KEY sample_extractor image_32)) image_16))"
  using sample_get_keys[OF sample_after_first(1-4) shape_image_16, of QKV_KEY image_32] by simp

lemma sample_patch_nums:
  "get_patch_num sample_extractor (map int (shape image_32)) = Inr 5"
  "get_patch_num sample_extractor (map int (shape image_16)) = Inr 2"
  by (simp_all add: shape_image_32 shape_image_16 get_patch_num_four)






lemma tiny_extractor_fields [simp]:
  "mode tiny_extractor = ''tiny''"
  "patch_size tiny_extractor = 16"
  "model tiny_extractor = tiny_model"
  by (simp_all add: tiny_extractor_def)

lemma tiny_forward [simp]:
  "forward tiny_model img =
     (replicate 12 (tiny_stage (1 + (shape img ! 2 div 16) * (shape img ! 3 div 16))), None)"
  "blocks tiny_model = 12"
  by (simp_all add: tiny_model_def)



section \<open>Patch counts\<close>

text \<open>
  Claim C1. For an image shape (batch, channels, height, width) and a positive patch
  size, the height-wise and width-wise patch counts are the floor quotients of
  height and width by the patch size, and the patch count is one more than their
  product; height 224, width 224 and patch size 16 give 197.
\<close>

theorem get_patch_num_formula:
  assumes "0 < patch_size e"
  shows "get_height_patch_num e [b, c, h, w] = Inr (h div patch_size e)
       \<and> get_width_patch_num e [b, c, h, w] = Inr (w div patch_size e)
       \<and> get_patch_num e [b, c, h, w] = Inr (1 + (h div patch_size e) * (w div patch_size e))
       \<and> (patch_size e = 16 \<longrightarrow> get_patch_num e [b, c, 224, 224] = Inr 197)"
  using assms
  by (simp add: get_patch_num_def get_height_patch_num_def get_width_patch_num_def
      get_patch_size_def py_floordiv_def)

theorem get_patch_num_formula_witness:
  "0 < patch_size sample_extractor
   \<and> get_height_patch_num sample_extractor [1, 3, 224, 224] = Inr 14
   \<and> get_width_patch_num sample_extractor [1, 3, 224, 224] = Inr 14
   \<and> get_patch_num sample_extractor [1, 3, 224, 224] = Inr 197"
  using get_patch_num_formula [of sample_extractor 1 3 224 224] by simp

section \<open>Variant constants\<close>

text \<open>
  Claim C10. For every variant of the closed set other than \<^verbatim>\<open>small\<close>, \<^verbatim>\<open>tiny\<close>
  included, the head count is 12 and the embedding width is 768, and the three
  decomposition functions reshape the combined tensor to
  (patch count, 3, 12, 64) before permuting and selecting.
\<close>

theorem non_small_uses_base_constants:
  assumes "mode e \<in> set MODE_keys" and "mode e \<noteq> ''small''"
  shows "get_head_num e = 12 \<and> get_embedding_dim e = 768
       \<and> get_queries_from_qkv e qkv shp =
           ebind (get_patch_num e shp) (\<lambda>patch_num.
           ebind (reshape qkv [patch_num, 3, 12, 64]) (\<lambda>r.
           ebind (permute r [1, 2, 0, 3]) (\<lambda>p. select0 p 0)))
       \<and> get_keys_from_qkv e qkv shp =
           ebind (get_patch_num e shp) (\<lambda>patch_num.
           ebind (reshape qkv [patch_num, 3, 12, 64]) (\<lambda>r.
           ebind (permute r [1, 2, 0, 3]) (\<lambda>p. select0 p 1)))
       \<and> get_values_from_qkv e qkv shp =
           ebind (get_patch_num e shp) (\<lambda>patch_num.
           ebind (reshape qkv [patch_num, 3, 12, 64]) (\<lambda>r.
           ebind (permute r [1, 2, 0, 3]) (\<lambda>p. select0 p 2)))"
proof -
  have h: "get_head_num e = 12" and d: "get_embedding_dim e = 768"
    using assms(2) by (simp_all add: get_head_num_def get_embedding_dim_def)
  have s: "split_qkv e qkv shp =
           ebind (get_patch_num e shp) (\<lambda>patch_num.
           ebind (reshape qkv [patch_num, 3, 12, 64]) (\<lambda>r. permute r [1, 2, 0, 3]))"
    by (simp add: split_qkv_def h d)
  show ?thesis
    by (simp add: h d get_queries_from_qkv_def get_keys_from_qkv_def get_values_from_qkv_def
        s ebind_assoc)
qed

theorem non_small_uses_base_constants_witness:
  "mode (fresh_extractor ''tiny'' 16 sample_model) \<in> set MODE_keys
   \<and> mode (fresh_extractor ''tiny'' 16 sample_model) \<noteq> ''small''
   \<and> get_head_num (fresh_extractor ''tiny'' 16 sample_model) = 12
   \<and> get_embedding_dim (fresh_extractor ''tiny'' 16 sample_model) = 768"
proof -
  have m: "mode (fresh_extractor ''tiny'' 16 sample_model) = ''tiny''"
    by (simp add: fresh_extractor_def init_hooks_data_def)
  have a: "mode (fresh_extractor ''tiny'' 16 sample_model) \<in> set MODE_keys"
    by (simp add: m MODE_keys_def)
  have b: "mode (fresh_extractor ''tiny'' 16 sample_model) \<noteq> ''small''"
    by (simp add: m)
  show ?thesis
    using non_small_uses_base_constants [OF a b] a b by simp
qed

section \<open>Round trip of the projection decomposition\<close>

text \<open>
  Claim C3. A combined tensor of shape (patch count, 3 times the embedding width)
  that fits the extractor's constants and the image shape is decomposed into
  queries, keys and values of shape (head count, patch count, head dimension), and
  stacking the three along the triplet axis, undoing the permutation and restoring
  the shape gives the combined tensor back.
\<close>

theorem qkv_round_trip:
  assumes ps: "0 < patch_size e" and hw: "0 \<le> h" "0 \<le> w"
    and pn: "pn = nat (1 + (h div patch_size e) * (w div patch_size e))"
    and sh: "shape qkv = [pn, 3 * nat (get_embedding_dim e)]"
    and wf: "wf_tensor qkv"
  shows "\<exists>q k v.
           get_queries_from_qkv e qkv [b, c, h, w] = Inr q
         \<and> get_keys_from_qkv e qkv [b, c, h, w] = Inr k
         \<and> get_values_from_qkv e qkv [b, c, h, w] = Inr v
         \<and> shape q = [nat (get_head_num e), pn, nat (get_embedding_dim e div get_head_num e)]
         \<and> shape k = shape q \<and> shape v = shape q
         \<and> recombine_qkv q k v (shape qkv) = Inr qkv"
proof -
  define H where "H = nat (get_head_num e)"
  define E where "E = nat (get_embedding_dim e)"
  have HE: "(H = 6 \<and> E = 384) \<or> (H = 12 \<and> E = 768)"
    by (simp add: H_def E_def get_head_num_def get_embedding_dim_def)
  have E64: "E = H * 64" using HE by auto
  have Hi: "get_head_num e = int H" and Ei: "get_embedding_dim e = int E"
    by (simp_all add: H_def E_def get_head_num_def get_embedding_dim_def)
  have D: "get_embedding_dim e div get_head_num e = 64"
    by (simp add: get_head_num_def get_embedding_dim_def)
  have "0 \<le> h div patch_size e" "0 \<le> w div patch_size e"
    using ps hw by (simp_all add: pos_imp_zdiv_nonneg_iff)
  then have "0 \<le> (h div patch_size e) * (w div patch_size e)" by simp
  then have pni: "1 + (h div patch_size e) * (w div patch_size e) = int pn"
    using pn by simp
  have gp: "get_patch_num e [b, c, h, w] = Inr (int pn)"
    using ps pni
    by (simp add: get_patch_num_def get_height_patch_num_def get_width_patch_num_def
        get_patch_size_def py_floordiv_def)
  have len: "length (elems qkv) = pn * (3 * E)"
    using wf sh by (simp add: wf_tensor_def E_def)
  define r where "r = \<lparr>shape = [pn, 3, H, 64], elems = elems qkv\<rparr>"
  have rs: "reshape qkv [int pn, 3, int H, 64] = Inr r"
  proof -
    have "reshape qkv [int pn, 3, int H, 64]
          = Inr \<lparr>shape = map nat [int pn, 3, int H, 64], elems = elems qkv\<rparr>"
      by (rule reshape_exact) (auto simp: len E64)
    then show ?thesis by (simp add: r_def)
  qed
  have r_shape: "shape r = [pn, 3, H, 64]" and r_wf: "wf_tensor r"
    by (simp_all add: r_def wf_tensor_def len E64)
  obtain p where p1: "permute r [1, 2, 0, 3] = Inr p" and p_shape: "shape p = [3, H, pn, 64]"
    and p_wf: "wf_tensor p" and p2: "permute p [2, 0, 1, 3] = Inr r"
    using permute_round_trip[OF r_shape r_wf] by blast
  have D64: "int E div int H = 64" using HE by auto
  have sp: "split_qkv e qkv [b, c, h, w] = Inr p"
    unfolding split_qkv_def gp Hi Ei Let_def D64 by (simp only: ebind_Inr rs p1)
  define n where "n = H * (pn * 64)"
  have p_len: "length (elems p) = 3 * n"
    using p_wf p_shape by (simp add: wf_tensor_def n_def)
  define q where "q = \<lparr>shape = [H, pn, 64], elems = take n (drop (0 * n) (elems p))\<rparr>"
  define k where "k = \<lparr>shape = [H, pn, 64], elems = take n (drop (1 * n) (elems p))\<rparr>"
  define v where "v = \<lparr>shape = [H, pn, 64], elems = take n (drop (2 * n) (elems p))\<rparr>"
  have gq: "get_queries_from_qkv e qkv [b, c, h, w] = Inr q"
    by (simp add: get_queries_from_qkv_def sp select0_def p_shape q_def n_def)
  have gk: "get_keys_from_qkv e qkv [b, c, h, w] = Inr k"
    by (simp add: get_keys_from_qkv_def sp select0_def p_shape k_def n_def)
  have gv: "get_values_from_qkv e qkv [b, c, h, w] = Inr v"
    by (simp add: get_values_from_qkv_def sp select0_def p_shape v_def n_def)
  have "elems q @ elems k @ elems v = elems p"
    unfolding q_def k_def v_def tensor.simps by (rule take_drop_three[OF p_len])
  then have st: "stack3 q k v = Inr p"
    using p_shape by (simp add: stack3_def q_def k_def v_def)
  have rback: "reshape r (map int (shape qkv)) = Inr qkv"
  proof -
    have "reshape r (map int (shape qkv))
          = Inr \<lparr>shape = map nat (map int (shape qkv)), elems = elems r\<rparr>"
      by (rule reshape_exact) (auto simp: sh r_def len E_def)
    then show ?thesis by (simp add: r_def comp_def)
  qed
  have rc: "recombine_qkv q k v (shape qkv) = Inr qkv"
    unfolding recombine_qkv_def st by (simp only: ebind_Inr p2 rback)
  have qs: "shape q = [nat (get_head_num e), pn, nat (get_embedding_dim e div get_head_num e)]"
    by (simp add: q_def D H_def)
  have ks: "shape k = shape q" and vs: "shape v = shape q"
    by (simp_all add: q_def k_def v_def)
  show ?thesis using gq gk gv qs ks vs rc by blast
qed

theorem qkv_round_trip_witness:
  "0 < patch_size sample_extractor
   \<and> wf_tensor (const_tensor [5, 2304] 1)
   \<and> (\<exists>q k v.
         get_queries_from_qkv sample_extractor (const_tensor [5, 2304] 1) [1, 3, 32, 32] = Inr q
       \<and> get_keys_from_qkv sample_extractor (const_tensor [5, 2304] 1) [1, 3, 32, 32] = Inr k
       \<and> get_values_from_qkv sample_extractor (const_tensor [5, 2304] 1) [1, 3, 32, 32] = Inr v
       \<and> shape q = [12, 5, 64] \<and> shape k = shape q \<and> shape v = shape q
       \<and> recombine_qkv q k v [5, 2304] = Inr (const_tensor [5, 2304] 1))"
  using qkv_round_trip [of sample_extractor 32 32 5 "const_tensor [5, 2304] 1" 1 3]
  by (simp add: const_tensor_def wf_tensor_def get_embedding_dim_def get_head_num_def)

section \<open>Similarity matrices\<close>

text \<open>
  Claim C6. The cross-similarity of a token set against itself is its
  self-similarity matrix: the two functions return the same result, entry for
  entry, on every input.
\<close>

theorem cross_similarity_of_self:
  "cross_cos_sim x x eps = attn_cosine_sim x eps"
  by (simp add: cross_cos_sim_def attn_cosine_sim_def ebind_def Let_def split: sum.splits)

text \<open>
  Claim C7. The self-similarity matrix of a token set is symmetric: the entry at
  \<open>[j, l]\<close> equals the entry at \<open>[l, j]\<close>, in every batch entry.
\<close>

theorem self_similarity_symmetric:
  assumes s: "shape x0 = [a, b, t, d]" and a: "0 < a" and w: "wf_tensor x0"
  shows "\<exists>sim. attn_cosine_sim x0 eps = Inr sim \<and> shape sim = [b, t, t]
             \<and> (\<forall>i<b. \<forall>j<t. \<forall>l<t. entry sim [i, j, l] = entry sim [i, l, j])"
proof -
  define sim where "sim = \<lparr>shape = [b, t, t], elems = tabulate [b, t, t] (cosine x0 eps)\<rparr>"
  have r: "attn_cosine_sim x0 eps = Inr sim"
    unfolding sim_def by (rule attn_cosine_sim_tab[OF s a w])
  have e: "entry sim [i, j, l] = cosine x0 eps [i, j, l]" if "i < b" "j < t" "l < t" for i j l
  proof -
    have v: "valid_index [b, t, t] [i, j, l]" using that by (simp add: valid_index3)
    show ?thesis unfolding entry_def sim_def tensor.simps by (rule nth_tabulate[OF v])
  qed
  have "\<forall>i<b. \<forall>j<t. \<forall>l<t. entry sim [i, j, l] = entry sim [i, l, j]"
    using e cosine_sym[OF s] by simp
  then show ?thesis using r by (simp add: sim_def)
qed

theorem self_similarity_symmetric_witness:
  "\<exists>sim. attn_cosine_sim two_tokens default_eps = Inr sim \<and> shape sim = [1, 2, 2]
         \<and> entry sim [0, 0, 1] = entry sim [0, 1, 0]"
proof -
  have "shape two_tokens = [1, 1, 2, 2]" "(0::nat) < 1" "wf_tensor two_tokens"
    by (simp_all add: two_tokens_def wf_tensor_def)
  from self_similarity_symmetric [OF this, of default_eps]
  show ?thesis by auto
qed

text \<open>
  Claim C5, as stated: every diagonal entry of the self-similarity matrix is 1
  whenever the token's L2 norm exceeds the clamp epsilon. It fails: the clamp is
  applied to the product of the two norms, so a token of norm \<open>1 / 100000\<close>, above
  the default epsilon \<open>1 / 100000000\<close>, has the diagonal entry \<open>1 / 100\<close>.
\<close>

theorem diagonal_below_one_counterexample:
  "default_eps < l2_norm (token faint_token 0 0)
   \<and> attn_cosine_sim faint_token default_eps = Inr \<lparr>shape = [1, 1, 1], elems = [1 / 100]\<rparr>
   \<and> entry \<lparr>shape = [1, 1, 1], elems = [1 / 100]\<rparr> [0, 0, 0] \<noteq> (1::real)"
proof -
  have s: "shape faint_token = [1, 1, 1, 1]" and a: "(0::nat) < 1" and w: "wf_tensor faint_token"
    by (simp_all add: faint_token_def wf_tensor_def)
  have t: "token faint_token 0 0 = [1 / 100000]"
    by (simp add: token_def faint_token_def entry_def)
  have n: "l2_norm [1 / 100000] = 1 / 100000"
    by (simp add: l2_norm_def real_sqrt_divide)
  have c: "cosine faint_token default_eps [0, 0, 0] = 1 / 100"
    by (simp add: cosine_def t n dot_def default_eps_def)
  have "tabulate [1, 1, 1] (cosine faint_token default_eps) = [1 / 100]"
    by (simp add: tabulate.simps c)
  then show ?thesis
    using attn_cosine_sim_tab[OF s a w, of default_eps] by (simp add: t n default_eps_def entry_def)
qed

text \<open>
  Claim C5, amended. A diagonal entry of the self-similarity matrix is 1 whenever
  the square of the token's L2 norm, which is the product the clamp is applied to,
  is at least the (positive) clamp epsilon; for the default epsilon that is a norm
  of at least \<open>1 / 10000\<close>.
\<close>

theorem self_similarity_diagonal:
  assumes s: "shape x0 = [a, b, t, d]" and a: "0 < a" and w: "wf_tensor x0"
    and e: "0 < eps" and i: "i < b" and j: "j < t"
    and n: "eps \<le> (l2_norm (token x0 i j))\<^sup>2"
  shows "\<exists>sim. attn_cosine_sim x0 eps = Inr sim \<and> shape sim = [b, t, t] \<and> entry sim [i, j, j] = 1"
  using attn_cosine_sim_entry[OF s a w i j j, of eps] cosine_diag[OF s e n] by auto

theorem self_similarity_diagonal_witness:
  "0 < default_eps \<and> default_eps \<le> (l2_norm (token two_tokens 0 1))\<^sup>2
   \<and> (\<exists>sim. attn_cosine_sim two_tokens default_eps = Inr sim \<and> shape sim = [1, 2, 2]
         \<and> entry sim [0, 1, 1] = 1)"
proof -
  have s: "shape two_tokens = [1, 1, 2, 2]" and a: "(0::nat) < 1" and w: "wf_tensor two_tokens"
    by (simp_all add: two_tokens_def wf_tensor_def)
  have e: "0 < default_eps" by (simp add: default_eps_def)
  have t: "token two_tokens 0 1 = [3, 4]"
    by (simp add: token_def two_tokens_def entry_def upt_0_2)
  have n: "default_eps \<le> (l2_norm (token two_tokens 0 1))\<^sup>2"
    unfolding t by (simp add: l2_norm_def default_eps_def)
  from self_similarity_diagonal [OF s a w e _ _ n] e n
  show ?thesis by simp
qed

section \<open>Capture state after an extraction\<close>

text \<open>
  Claim C2. When the forward evaluation of an extraction completes, the extractor
  is left with an empty handler list, with every capture kind selecting the
  twelve layers \<open>0 .. 11\<close> and with an empty buffer for every capture kind. This
  holds for the three extraction functions and for every facade operation built
  on them, also when the operation fails after the extraction. When moreover the
  handler list mirrors the callbacks attached to the model, as it does from
  construction on, a following extraction of any kind returns what it returns on a
  freshly constructed extractor with the same model.
\<close>

theorem extraction_leaves_reset_state:
  assumes c: "snd (forward (model e) img) = None"
  shows "(\<forall>op \<in> set extraction_ops. is_cleared (snd (op e img)))
       \<and> is_cleared (snd (get_tokens_from_input e img l))
       \<and> is_cleared (snd (get_cls_token_from_input e img l))
       \<and> is_cleared (snd (get_queries_from_input e img l))
       \<and> is_cleared (snd (get_keys_from_input e img l))
       \<and> is_cleared (snd (get_values_from_input e img l))
       \<and> is_cleared (snd (get_tokens_self_sim_from_input e img l))
       \<and> is_cleared (snd (get_queries_self_sim_from_input e img l))
       \<and> is_cleared (snd (get_keys_self_sim_from_input e img l))
       \<and> is_cleared (snd (get_values_self_sim_from_input e img l))
       \<and> is_cleared (snd (get_attentions_from_input e img l return_mean))
       \<and> (snd (forward (model e) img2) = None \<longrightarrow>
            is_cleared (snd (get_keys_cross_sim_from_input e img img2 l)))
       \<and> (model_hooks e = hook_handlers e \<longrightarrow>
            (\<forall>op1 \<in> set extraction_ops. \<forall>op2 \<in> set extraction_ops.
               fst (op2 (snd (op1 e img)) img2)
               = fst (op2 (fresh_extractor (mode e) (patch_size e) (model e)) img2)))"
proof -
  note cl = capture_run_cleared[OF c]
  have ops: "\<forall>op \<in> set extraction_ops. is_cleared (snd (op e img))"
    using extraction_ops_cases cl(1) by blast
  have b: "is_cleared (snd (get_feature_from_input e img))"
    and q: "is_cleared (snd (get_qkv_feature_from_input e img))"
    and a: "is_cleared (snd (get_attn_feature_from_input e img))"
    by (simp_all add: extraction_as_capture_run cl(1))
  have k: "is_cleared (snd (get_keys_from_input e img l))"
    by (simp add: get_keys_from_input_def q)
  have cross: "is_cleared (snd (get_keys_cross_sim_from_input e img img2 l))"
    if c2: "snd (forward (model e) img2) = None"
  proof (cases "get_keys_from_input e img l")
    case (Pair r1 e1)
    have e1: "e1 = snd (capture_run QKV_KEY e img)"
      using Pair by (simp add: get_keys_from_input_def and_then_def extraction_as_capture_run)
    have m1: "model e1 = model e" unfolding e1 by (rule cl(2))
    have c1: "is_cleared e1" unfolding e1 by (rule cl(1))
    show ?thesis
    proof (cases r1)
      case (Inl err)
      then show ?thesis using Pair c1 by (simp add: get_keys_cross_sim_from_input_def)
    next
      case (Inr src_keys)
      have c2': "snd (forward (model e1) img2) = None" using c2 m1 by simp
      have "is_cleared (snd (get_keys_from_input e1 img2 l))"
        by (simp add: get_keys_from_input_def extraction_as_capture_run
            capture_run_cleared(1)[OF c2'])
      then show ?thesis
        using Pair Inr
        by (cases "get_keys_from_input e1 img2 l")
           (auto simp: get_keys_cross_sim_from_input_def split: sum.splits)
    qed
  qed
  have indep: "fst (op2 (snd (op1 e img)) img2)
               = fst (op2 (fresh_extractor (mode e) (patch_size e) (model e)) img2)"
    if h: "model_hooks e = hook_handlers e"
      and o1: "op1 \<in> set extraction_ops" and o2: "op2 \<in> set extraction_ops" for op1 op2
  proof -
    obtain k1 where k1: "op1 = capture_run k1" using extraction_ops_cases[OF o1] by blast
    obtain k2 where k2: "op2 = capture_run k2" using extraction_ops_cases[OF o2] by blast
    have r: "is_reset (snd (capture_run k1 e img))"
      using capture_run_cleared(1)[OF c] capture_run_cleared(6)[OF c h]
      by (simp add: is_reset_def)
    have m: "model (snd (capture_run k1 e img)) = model (fresh_extractor (mode e) (patch_size e) (model e))"
      by (simp add: capture_run_cleared(2)[OF c])
    show ?thesis
      unfolding k1 k2 by (rule capture_run_reset_same[OF r fresh_extractor_reset m])
  qed
  show ?thesis
    using ops b q a k cross indep
    by (simp add: get_tokens_from_input_def get_cls_token_from_input_def
        get_queries_from_input_def get_values_from_input_def
        get_tokens_self_sim_from_input_def get_queries_self_sim_from_input_def
        get_keys_self_sim_from_input_def get_values_self_sim_from_input_def
        get_attentions_from_input_def)
qed

theorem extraction_leaves_reset_state_witness:
  "snd (forward (model sample_extractor) image_32) = None
   \<and> snd (forward (model sample_extractor) image_16) = None
   \<and> model_hooks sample_extractor = hook_handlers sample_extractor
   \<and> is_cleared (snd (get_feature_from_input sample_extractor image_32))
   \<and> is_cleared (snd (get_qkv_feature_from_input sample_extractor image_32))
   \<and> is_cleared (snd (get_attn_feature_from_input sample_extractor image_32))
   \<and> is_cleared (snd (get_keys_cross_sim_from_input sample_extractor image_32 image_16 0))
   \<and> fst (get_qkv_feature_from_input (snd (get_feature_from_input sample_extractor image_32)) image_16)
     = fst (get_qkv_feature_from_input (fresh_extractor ''base'' 16 sample_model) image_16)"
proof -
  have c: "snd (forward (model sample_extractor) image_32) = None" by simp
  from extraction_leaves_reset_state [OF c, of 0 True image_16]
  show ?thesis by (simp add: extraction_ops_def)
qed

section \<open>Class token\<close>

text \<open>
  Claim C9, as stated: the class token equals \<^verbatim>\<open>get_tokens_from_input(...)[0]\<close>. It
  fails: indexing the token tensor of shape (1, 5, 768) with \<^verbatim>\<open>[0]\<close> selects along the
  batch axis and gives all five tokens, shape (5, 768), while the class token has
  shape (1, 768).
\<close>

theorem class_token_is_not_first_slice_counterexample:
  "fst (get_tokens_from_input sample_extractor image_32 0) = Inr (const_tensor [1, 5, 768] 1)
   \<and> select0 (const_tensor [1, 5, 768] 1) 0 = Inr (const_tensor [5, 768] 1)
   \<and> fst (get_cls_token_from_input sample_extractor image_32 0) = Inr (const_tensor [1, 768] 1)
   \<and> const_tensor [1, 768] 1 \<noteq> const_tensor [5, 768] (1::real)"
proof -
  have s: "select0 (const_tensor [1, 5, 768] 1) 0 = Inr (const_tensor [5, 768] (1::real))"
    by (rule select0_const_tensor) simp
  have c: "fst (get_cls_token_from_input sample_extractor image_32 0) = Inr (const_tensor [1, 768] 1)"
    by (simp add: get_cls_token_from_input_def sample_block_feature_32 py_index_replicate
        slice_col0_const_tensor)
  have n: "const_tensor [1, 768] 1 \<noteq> const_tensor [5, 768] (1::real)"
  proof
    assume "const_tensor [1, 768] 1 = const_tensor [5, 768] (1::real)"
    then have "shape (const_tensor [1, 768] (1::real)) = shape (const_tensor [5, 768] (1::real))"
      by (rule arg_cong)
    then show False by (simp only: shape_const_tensor) simp
  qed
  show ?thesis using sample_tokens_32 s c n by blast
qed

text \<open>
  Claim C9, amended. The class token equals
  \<^verbatim>\<open>get_tokens_from_input(image, stage)[:, 0, :]\<close>: for a token tensor of shape
  (batch, tokens, width) with at least one token it has shape (batch, width) and
  holds, for every batch entry, the row of token 0.
\<close>

theorem class_token_is_first_row:
  "get_cls_token_from_input e img l = and_then (get_tokens_from_input e img l) slice_col0
   \<and> (\<forall>tokens e' b n d.
        get_tokens_from_input e img l = (Inr tokens, e') \<and> shape tokens = [b, n, d]
        \<and> 0 < n \<and> wf_tensor tokens \<longrightarrow>
        (\<exists>cls. get_cls_token_from_input e img l = (Inr cls, e') \<and> shape cls = [b, d]
               \<and> (\<forall>i<b. \<forall>k<d. entry cls [i, k] = entry tokens [i, 0, k])))"
proof -
  have eq: "get_cls_token_from_input e img l = and_then (get_tokens_from_input e img l) slice_col0"
    by (simp add: get_cls_token_from_input_def get_tokens_from_input_def and_then_assoc)
  have "\<exists>cls. get_cls_token_from_input e img l = (Inr cls, e') \<and> shape cls = [b, d]
               \<and> (\<forall>i<b. \<forall>k<d. entry cls [i, k] = entry tokens [i, 0, k])"
    if t: "get_tokens_from_input e img l = (Inr tokens, e')" and s: "shape tokens = [b, n, d]"
      and n: "0 < n" and w: "wf_tensor tokens" for tokens e' b n d
    using slice_col0_entries[OF s n w] by (auto simp: eq t and_then_def)
  then show ?thesis using eq by blast
qed

theorem class_token_is_first_row_witness:
  "get_tokens_from_input sample_extractor image_32 0
     = (Inr (const_tensor [1, 5, 768] 1), snd (get_tokens_from_input sample_extractor image_32 0))
   \<and> wf_tensor (const_tensor [1, 5, 768] (1::real))
   \<and> (\<exists>cls. get_cls_token_from_input sample_extractor image_32 0
                = (Inr cls, snd (get_tokens_from_input sample_extractor image_32 0))
            \<and> shape cls = [1, 768]
            \<and> entry cls [0, 0] = entry (const_tensor [1, 5, 768] 1) [0, 0, 0])"
proof -
  have t: "get_tokens_from_input sample_extractor image_32 0
     = (Inr (const_tensor [1, 5, 768] 1), snd (get_tokens_from_input sample_extractor image_32 0))"
    using sample_tokens_32 by (metis prod.collapse)
  have h: "get_tokens_from_input sample_extractor image_32 0
             = (Inr (const_tensor [1, 5, 768] 1), snd (get_tokens_from_input sample_extractor image_32 0))
           \<and> shape (const_tensor [1, 5, 768] (1::real)) = [1, 5, 768]
           \<and> (0::nat) < 5 \<and> wf_tensor (const_tensor [1, 5, 768] (1::real))"
    using t by simp
  from class_token_is_first_row [of sample_extractor image_32 0]
  have "\<exists>cls. get_cls_token_from_input sample_extractor image_32 0
                = (Inr cls, snd (get_tokens_from_input sample_extractor image_32 0))
            \<and> shape cls = [1, 768]
            \<and> (\<forall>i<1. \<forall>k<768. entry cls [i, k] = entry (const_tensor [1, 5, 768] 1) [i, 0, k])"
    using h by blast
  then show ?thesis using t by auto
qed

section \<open>Cross-similarity of images with different patch counts\<close>

text \<open>
  Claim C4, as stated: for two images whose patch counts differ the operation fails
  before performing any tensor computation. It fails in that part: the shape
  assertion compares the two decomposed key tensors, so both forward evaluations
  and both decompositions have been performed when it is reached. For images of
  32 by 32 and of 16 by 16 pixels (5 and 2 patches) the keys of the first image
  are computed and the forward evaluation has run twice when the operation
  fails.
\<close>

theorem cross_similarity_after_forward_counterexample:
  "get_patch_num sample_extractor (map int (shape image_32)) = Inr 5
   \<and> get_patch_num sample_extractor (map int (shape image_16)) = Inr 2
   \<and> forward_calls sample_extractor = 0
   \<and> fst (get_keys_from_input sample_extractor image_32 0) = Inr (const_tensor [12, 5, 64] 1)
   \<and> fst (get_keys_cross_sim_from_input sample_extractor image_32 image_16 0) = Inl AssertionError
   \<and> forward_calls (snd (get_keys_cross_sim_from_input sample_extractor image_32 image_16 0)) = 2"
proof -
  have d: "get_patch_num sample_extractor (map int (shape image_32))
           \<noteq> get_patch_num sample_extractor (map int (shape image_16))"
    by (simp add: sample_patch_nums)
  from cross_sim_mismatch [OF sample_keys_32 sample_keys_16_after_32 d]
  show ?thesis by (simp add: sample_patch_nums sample_keys_32)
qed

text \<open>
  Claim C4, amended. For two images whose patch counts differ and whose key
  extractions both succeed, the operation fails with AssertionError (the shape
  mismatch error) after the two forward evaluations and key decompositions and
  before any similarity is computed: the key tensors have different shapes, the
  result is the error and never a truncated or padded matrix, and the extractor
  is left in the state after the second key extraction.
\<close>

theorem cross_similarity_rejects_different_patch_counts:
  assumes k1: "get_keys_from_input e source_img l = (Inr src_keys, e1)"
    and k2: "get_keys_from_input e1 target_img l = (Inr tgt_keys, e2)"
    and d: "get_patch_num e (map int (shape source_img)) \<noteq> get_patch_num e (map int (shape target_img))"
  shows "get_keys_cross_sim_from_input e source_img target_img l = (Inl AssertionError, e2)
       \<and> shape src_keys \<noteq> shape tgt_keys
       \<and> forward_calls e2 = forward_calls e + 2"
  using k1 k2 d by (rule cross_sim_mismatch)

theorem cross_similarity_rejects_different_patch_counts_witness:
  "get_keys_from_input sample_extractor image_32 0
     = (Inr (const_tensor [12, 5, 64] 1), snd (get_keys_from_input sample_extractor image_32 0))
   \<and> get_keys_from_input (snd (get_keys_from_input sample_extractor image_32 0)) image_16 0
     = (Inr (const_tensor [12, 2, 64] 1),
        snd (get_keys_from_input (snd (get_keys_from_input sample_extractor image_32 0)) image_16 0))
   \<and> get_patch_num sample_extractor (map int (shape image_32))
       \<noteq> get_patch_num sample_extractor (map int (shape image_16))
   \<and> get_keys_cross_sim_from_input sample_extractor image_32 image_16 0
     = (Inl AssertionError,
        snd (get_keys_from_input (snd (get_keys_from_input sample_extractor image_32 0)) image_16 0))
   \<and> shape (const_tensor [12, 5, 64] (1::real)) \<noteq> shape (const_tensor [12, 2, 64] (1::real))
   \<and> forward_calls (snd (get_keys_from_input (snd (get_keys_from_input sample_extractor image_32 0)) image_16 0))
     = forward_calls sample_extractor + 2"
proof -
  have d: "get_patch_num sample_extractor (map int (shape image_32))
           \<noteq> get_patch_num sample_extractor (map int (shape image_16))"
    by (simp add: sample_patch_nums)
  from cross_similarity_rejects_different_patch_counts [OF sample_keys_32 sample_keys_16_after_32 d]
  show ?thesis using d by (simp add: sample_keys_32 sample_keys_16_after_32)
qed

section \<open>Mean attention over the heads\<close>




end
